theory Spec2Isabelle
  imports Main "HOL-Library.Word" "HOL-Library.AList" "HOL-Library.Sublist"
begin

section \<open>Data model (internal/models/models.go)\<close>

text \<open>
  A \<open>uuid.UUID\<close> is an array of 16 bytes. \<open>PlayerType\<close> and \<open>PlayerMode\<close> are Go
  string types with named constants; every string is a value of the type, so they are
  strings here too. Go strings are byte sequences, as \<open>string\<close> is.
\<close>

type_synonym uuid = "128 word"

type_synonym PlayerType = string

definition Participant :: PlayerType where
  "Participant = ''Participant''"

definition Observer :: PlayerType where
  "Observer = ''Observer''"

type_synonym PlayerMode = string

definition Awake :: PlayerMode where
  "Awake = ''Awake''"

definition Asleep :: PlayerMode where
  "Asleep = ''Asleep''"

text \<open>
  \<open>PublicId\<close> is a Go \<open>int\<close> (64 bits on the build target of the Dockerfile). It is an
  unbounded integer here: the only arithmetic on it is \<open>ids[len(ids)-1] + 1\<close> in
  \<open>JoinRoom\<close>, which starts at 1 and grows by one per new player, so wrap-around would take
  \<open>2^63 - 1\<close> joins to one room.
\<close>

record Player =
  Id :: string
  PublicId :: int
  RecoveryId :: uuid
  Name :: string
  Type :: PlayerType
  Mode :: PlayerMode

record PokerSession =
  CardSet :: "string list"
  Votes :: "string \<rightharpoonup> string"
  IsShown :: bool

text \<open>
  \<open>Players\<close> is a Go map from private id to \<open>*Player\<close>. The engine ranges over it
  (\<open>JoinRoom\<close>, \<open>KickPlayer\<close>), so it is an association list whose order stands for the
  order in which \<open>range\<close> visits the entries; Go leaves that order unspecified, and the
  theorems below hold for every list. Lookup, assignment and \<open>delete\<close> are \<open>map_of\<close>,
  \<open>AList.update\<close> and \<open>AList.delete\<close>. Inside the engine each \<open>*Player\<close> is held by one
  map slot only, so the record value stands for the pointer. \<open>LastAccess\<close> is a
  \<open>time.Time\<close>, an instant counted in nanoseconds here. The room's own field \<open>Id\<close> is
  \<open>ServerId\<close>, since \<open>Player\<close> has an \<open>Id\<close> already, and a variable \<open>id\<close> of the source is
  \<open>roomId\<close> or \<open>key\<close>, since \<open>id\<close> is the identity function of HOL.
\<close>

record PokerServer =
  ServerId :: uuid
  Players :: "(string \<times> Player) list"
  CurrentSession :: PokerSession
  LastAccess :: int

section \<open>The engine (internal/engine/engine.go)\<close>

text \<open>
  The engine is the room table; its mutex serialises the operations, each of which is one
  function from the table to a result and the table afterwards.
\<close>

record Engine =
  servers :: "uuid \<rightharpoonup> PokerServer"

definition NewEngine :: Engine where
  "NewEngine = \<lparr>servers = Map.empty\<rparr>"

text \<open>The errors of the engine are the messages passed to \<open>errors.New\<close>.\<close>

datatype error =
  CardSetEmpty
  | RoomNotFound
  | PlayerNotFound
  | ObserversCannotVote
  | CannotChangeVote
  | CannotRedactVote

fun message :: "error \<Rightarrow> string" where
  "message CardSetEmpty = ''card set cannot be empty''"
| "message RoomNotFound = ''room not found''"
| "message PlayerNotFound = ''player not found''"
| "message ObserversCannotVote = ''observers cannot vote''"
| "message CannotChangeVote = ''cannot change vote once revealed''"
| "message CannotRedactVote = ''cannot redact vote once revealed''"

text \<open>The error taxonomy of the specification, by which its sentences name these errors.\<close>

datatype kind = InvalidInput | NotFound | Forbidden | Locked

fun kind_of :: "error \<Rightarrow> kind" where
  "kind_of CardSetEmpty = InvalidInput"
| "kind_of RoomNotFound = NotFound"
| "kind_of PlayerNotFound = NotFound"
| "kind_of ObserversCannotVote = Forbidden"
| "kind_of CannotChangeVote = Locked"
| "kind_of CannotRedactVote = Locked"

subsection \<open>Library functions used by the engine\<close>

text \<open>
  \<open>strings.Split(s, ",")\<close>: the substrings between the commas, one more than there are
  commas; the empty string gives one empty substring. \<open>cur\<close> is the substring being read.
\<close>

fun split_from :: "string \<Rightarrow> string \<Rightarrow> string list" where
  "split_from cur [] = [cur]"
| "split_from cur (c # cs) =
     (if c = CHR '','' then cur # split_from [] cs else split_from (cur @ [c]) cs)"

definition Split :: "string \<Rightarrow> string list" where
  "Split s = split_from [] s"

text \<open>
  \<open>strings.TrimSpace\<close> removes leading and trailing white space as Unicode defines it
  (\<open>unicode.IsSpace\<close>). A Go string holds UTF-8, so a white-space character is one of the
  six ASCII bytes or the UTF-8 encoding of U+0085, U+00A0, U+1680, U+2000..U+200A, U+2028,
  U+2029, U+202F, U+205F or U+3000.
\<close>

definition spaceRunes :: "string list" where
  "spaceRunes =
     [[CHR 0x09], [CHR 0x0A], [CHR 0x0B], [CHR 0x0C], [CHR 0x0D], [CHR 0x20],
      [CHR 0xC2, CHR 0x85], [CHR 0xC2, CHR 0xA0],
      [CHR 0xE1, CHR 0x9A, CHR 0x80],
      [CHR 0xE2, CHR 0x80, CHR 0x80], [CHR 0xE2, CHR 0x80, CHR 0x81],
      [CHR 0xE2, CHR 0x80, CHR 0x82], [CHR 0xE2, CHR 0x80, CHR 0x83],
      [CHR 0xE2, CHR 0x80, CHR 0x84], [CHR 0xE2, CHR 0x80, CHR 0x85],
      [CHR 0xE2, CHR 0x80, CHR 0x86], [CHR 0xE2, CHR 0x80, CHR 0x87],
      [CHR 0xE2, CHR 0x80, CHR 0x88], [CHR 0xE2, CHR 0x80, CHR 0x89],
      [CHR 0xE2, CHR 0x80, CHR 0x8A],
      [CHR 0xE2, CHR 0x80, CHR 0xA8], [CHR 0xE2, CHR 0x80, CHR 0xA9],
      [CHR 0xE2, CHR 0x80, CHR 0xAF], [CHR 0xE2, CHR 0x81, CHR 0x9F],
      [CHR 0xE3, CHR 0x80, CHR 0x80]]"

text \<open>The number of bytes of the white-space character a string starts (ends) with, or 0.\<close>

definition leadingSpace :: "string \<Rightarrow> nat" where
  "leadingSpace s = (case find (\<lambda>w. prefix w s) spaceRunes of None \<Rightarrow> 0 | Some w \<Rightarrow> length w)"

definition trailingSpace :: "string \<Rightarrow> nat" where
  "trailingSpace s = (case find (\<lambda>w. suffix w s) spaceRunes of None \<Rightarrow> 0 | Some w \<Rightarrow> length w)"

function TrimLeft :: "string \<Rightarrow> string" where
  "TrimLeft s = (if leadingSpace s = 0 then s else TrimLeft (drop (leadingSpace s) s))"
  by pat_completeness auto
termination
proof (relation "measure length")
  show "wf (measure length)" by simp
next
  fix s :: string
  assume "leadingSpace s \<noteq> 0"
  moreover have "leadingSpace [] = 0"
    by (simp add: leadingSpace_def spaceRunes_def)
  ultimately have "s \<noteq> []" by auto
  with \<open>leadingSpace s \<noteq> 0\<close> show "(drop (leadingSpace s) s, s) \<in> measure length"
    by simp
qed

function TrimRight :: "string \<Rightarrow> string" where
  "TrimRight s =
     (if trailingSpace s = 0 then s else TrimRight (take (length s - trailingSpace s) s))"
  by pat_completeness auto
termination
proof (relation "measure length")
  show "wf (measure length)" by simp
next
  fix s :: string
  assume "trailingSpace s \<noteq> 0"
  moreover have "trailingSpace [] = 0"
    by (simp add: trailingSpace_def spaceRunes_def)
  ultimately have "s \<noteq> []" by auto
  with \<open>trailingSpace s \<noteq> 0\<close> show "(take (length s - trailingSpace s) s, s) \<in> measure length"
    by simp
qed

declare TrimLeft.simps [simp del] TrimRight.simps [simp del]

definition TrimSpace :: "string \<Rightarrow> string" where
  "TrimSpace s = TrimRight (TrimLeft s)"

text \<open>
  \<open>fmt.Sprintf("%d", n)\<close>: the decimal digits of \<open>n\<close>, after a minus sign when \<open>n\<close> is
  negative.
\<close>

definition digit :: "nat \<Rightarrow> char" where
  "digit d = ''0123456789'' ! d"

fun decimal :: "nat \<Rightarrow> string" where
  "decimal n = (if n < 10 then [digit n] else decimal (n div 10) @ [digit (n mod 10)])"

declare decimal.simps [simp del]

definition Sprintf_d :: "int \<Rightarrow> string" where
  "Sprintf_d n = (if n < 0 then CHR ''-'' # decimal (nat (- n)) else decimal (nat n))"

subsection \<open>CreateRoom\<close>

text \<open>
  The loop over \<open>cards\<close>, appending every non-empty trimmed token to \<open>cleanedCards\<close>.
\<close>

fun cleanCards :: "string list \<Rightarrow> string list \<Rightarrow> string list" where
  "cleanCards cleanedCards [] = cleanedCards"
| "cleanCards cleanedCards (c # cards) =
     (let trimmed = TrimSpace c
      in if trimmed \<noteq> [] then cleanCards (cleanedCards @ [trimmed]) cards
         else cleanCards cleanedCards cards)"

text \<open>
  \<open>uuid.New()\<close> and \<open>time.Now()\<close> are read from the environment: the new room id \<open>roomId\<close> and
  the instant \<open>now\<close> are arguments. The code stores the room under \<open>id\<close> whatever the table
  holds there.
\<close>

definition CreateRoom :: "Engine \<Rightarrow> uuid \<Rightarrow> int \<Rightarrow> string \<Rightarrow> (error + uuid) \<times> Engine" where
  "CreateRoom e roomId now desiredCardSet =
     (let cards = Split desiredCardSet;
          cleanedCards = cleanCards [] cards
      in if length cleanedCards = 0 then (Inl CardSetEmpty, e)
         else (Inr roomId,
               e\<lparr>servers := (servers e)(roomId \<mapsto>
                    \<lparr>ServerId = roomId,
                     Players = [],
                     CurrentSession = \<lparr>CardSet = cleanedCards, Votes = Map.empty, IsShown = False\<rparr>,
                     LastAccess = now\<rparr>)\<rparr>))"

subsection \<open>GetServer\<close>

definition GetServer :: "Engine \<Rightarrow> int \<Rightarrow> uuid \<Rightarrow> PokerServer option \<times> Engine" where
  "GetServer e now roomId =
     (case servers e roomId of
        None \<Rightarrow> (None, e)
      | Some s \<Rightarrow>
          (let s' = s\<lparr>LastAccess := now\<rparr>
           in (Some s', e\<lparr>servers := (servers e)(roomId \<mapsto> s')\<rparr>)))"

subsection \<open>JoinRoom\<close>

text \<open>
  The first loop returns at the first player it visits whose recovery id is the one
  supplied; it deletes the slot \<open>p.Id\<close> and stores the updated record under \<open>privateId\<close>.
  Otherwise the public ids are collected and sorted, and the last one plus one is taken.
\<close>

definition JoinRoom ::
  "Engine \<Rightarrow> uuid \<Rightarrow> uuid \<Rightarrow> string \<Rightarrow> string \<Rightarrow> PlayerType \<Rightarrow> (error + Player) \<times> Engine" where
  "JoinRoom e roomId recoveryId playerName privateId pType =
     (case servers e roomId of
        None \<Rightarrow> (Inl RoomNotFound, e)
      | Some server \<Rightarrow>
          (case find (\<lambda>(k, p). RecoveryId p = recoveryId) (Players server) of
             Some (k, p) \<Rightarrow>
               (let p' = p\<lparr>Id := privateId, Mode := Awake, Name := playerName, Type := pType\<rparr>;
                    players = AList.update privateId p' (AList.delete (Id p) (Players server))
                in (Inr p', e\<lparr>servers := (servers e)(roomId \<mapsto> server\<lparr>Players := players\<rparr>)\<rparr>))
           | None \<Rightarrow>
               (let publicId =
                      (if length (Players server) > 0
                       then last (sort (map (\<lambda>(k, p). PublicId p) (Players server))) + 1
                       else 1);
                    player = \<lparr>Id = privateId, PublicId = publicId, RecoveryId = recoveryId,
                              Name = playerName, Type = pType, Mode = Awake\<rparr>;
                    players = AList.update privateId player (Players server)
                in (Inr player, e\<lparr>servers := (servers e)(roomId \<mapsto> server\<lparr>Players := players\<rparr>)\<rparr>))))"

subsection \<open>Vote, UnVote, ClearVotes, ShowVotes\<close>

definition Vote :: "Engine \<Rightarrow> uuid \<Rightarrow> string \<Rightarrow> string \<Rightarrow> (error + unit) \<times> Engine" where
  "Vote e serverId privateId vote =
     (case servers e serverId of
        None \<Rightarrow> (Inl RoomNotFound, e)
      | Some server \<Rightarrow>
          (case map_of (Players server) privateId of
             None \<Rightarrow> (Inl PlayerNotFound, e)
           | Some player \<Rightarrow>
               if Type player = Observer then (Inl ObserversCannotVote, e)
               else if IsShown (CurrentSession server) then (Inl CannotChangeVote, e)
               else
                 (let session = CurrentSession server;
                      votes = (Votes session)(Sprintf_d (PublicId player) \<mapsto> vote)
                  in (Inr (),
                      e\<lparr>servers := (servers e)(serverId \<mapsto>
                           server\<lparr>CurrentSession := session\<lparr>Votes := votes\<rparr>\<rparr>)\<rparr>))))"

definition UnVote :: "Engine \<Rightarrow> uuid \<Rightarrow> string \<Rightarrow> (error + unit) \<times> Engine" where
  "UnVote e serverId privateId =
     (case servers e serverId of
        None \<Rightarrow> (Inl RoomNotFound, e)
      | Some server \<Rightarrow>
          if IsShown (CurrentSession server) then (Inl CannotRedactVote, e)
          else
            (case map_of (Players server) privateId of
               None \<Rightarrow> (Inl PlayerNotFound, e)
             | Some player \<Rightarrow>
                 (let session = CurrentSession server;
                      votes = (Votes session)(Sprintf_d (PublicId player) := None)
                  in (Inr (),
                      e\<lparr>servers := (servers e)(serverId \<mapsto>
                           server\<lparr>CurrentSession := session\<lparr>Votes := votes\<rparr>\<rparr>)\<rparr>))))"

definition ClearVotes :: "Engine \<Rightarrow> uuid \<Rightarrow> (error + unit) \<times> Engine" where
  "ClearVotes e serverId =
     (case servers e serverId of
        None \<Rightarrow> (Inl RoomNotFound, e)
      | Some server \<Rightarrow>
          (let session = (CurrentSession server)\<lparr>Votes := Map.empty, IsShown := False\<rparr>
           in (Inr (),
               e\<lparr>servers := (servers e)(serverId \<mapsto> server\<lparr>CurrentSession := session\<rparr>)\<rparr>)))"

definition ShowVotes :: "Engine \<Rightarrow> uuid \<Rightarrow> (error + unit) \<times> Engine" where
  "ShowVotes e serverId =
     (case servers e serverId of
        None \<Rightarrow> (Inl RoomNotFound, e)
      | Some server \<Rightarrow>
          (let session = (CurrentSession server)\<lparr>IsShown := True\<rparr>
           in (Inr (),
               e\<lparr>servers := (servers e)(serverId \<mapsto> server\<lparr>CurrentSession := session\<rparr>)\<rparr>)))"

subsection \<open>KickPlayer, LeaveRoom, CleanupOldRooms\<close>

text \<open>
  \<open>KickPlayer\<close> removes the first player it visits whose public id is the one given, under
  the key of the visit, and the vote under that public id. \<open>LeaveRoom\<close> returns
  \<open>("", false)\<close> where it finds no room or no player: \<open>None\<close> here.
\<close>

definition KickPlayer :: "Engine \<Rightarrow> uuid \<Rightarrow> int \<Rightarrow> (error + string) \<times> Engine" where
  "KickPlayer e serverId kickedPublicId =
     (case servers e serverId of
        None \<Rightarrow> (Inl RoomNotFound, e)
      | Some server \<Rightarrow>
          (case find (\<lambda>(key, p). PublicId p = kickedPublicId) (Players server) of
             Some (key, p) \<Rightarrow>
               (let players = AList.delete key (Players server);
                    session = CurrentSession server;
                    votes = (Votes session)(Sprintf_d (PublicId p) := None)
                in (Inr key,
                    e\<lparr>servers := (servers e)(serverId \<mapsto>
                         server\<lparr>Players := players,
                                CurrentSession := session\<lparr>Votes := votes\<rparr>\<rparr>)\<rparr>))
           | None \<Rightarrow> (Inl PlayerNotFound, e)))"

definition LeaveRoom :: "Engine \<Rightarrow> uuid \<Rightarrow> string \<Rightarrow> string option \<times> Engine" where
  "LeaveRoom e serverId privateId =
     (case servers e serverId of
        None \<Rightarrow> (None, e)
      | Some server \<Rightarrow>
          (case map_of (Players server) privateId of
             None \<Rightarrow> (None, e)
           | Some player \<Rightarrow>
               (let name = Name player;
                    players = AList.delete privateId (Players server);
                    session = CurrentSession server;
                    votes = (Votes session)(Sprintf_d (PublicId player) := None)
                in (Some name,
                    e\<lparr>servers := (servers e)(serverId \<mapsto>
                         server\<lparr>Players := players,
                                CurrentSession := session\<lparr>Votes := votes\<rparr>\<rparr>)\<rparr>))))"

definition CleanupOldRooms :: "Engine \<Rightarrow> int \<Rightarrow> int \<Rightarrow> Engine" where
  "CleanupOldRooms e now maxAge =
     e\<lparr>servers := (\<lambda>k. case servers e k of
                        None \<Rightarrow> None
                      | Some s \<Rightarrow> if now - LastAccess s > maxAge then None else Some s)\<rparr>"

section \<open>Sequences of engine calls\<close>

text \<open>
  One call of the engine with its arguments. \<open>Reorder\<close> is no call: it stands for the
  freedom of Go's \<open>range\<close> to visit the players of a room in any order, and replaces
  the list of players by a permutation of it.
\<close>

datatype action =
  ACreateRoom uuid int string
  | AGetServer int uuid
  | AJoinRoom uuid uuid string string PlayerType
  | AVote uuid string string
  | AUnVote uuid string
  | AClearVotes uuid
  | AShowVotes uuid
  | AKickPlayer uuid int
  | ALeaveRoom uuid string
  | ACleanupOldRooms int int
  | Reorder uuid "(string \<times> Player) list"

definition reorder :: "Engine \<Rightarrow> uuid \<Rightarrow> (string \<times> Player) list \<Rightarrow> Engine" where
  "reorder e roomId ps =
     (case servers e roomId of
        None \<Rightarrow> e
      | Some server \<Rightarrow>
          if distinct ps \<and> distinct (Players server) \<and> set ps = set (Players server)
          then e\<lparr>servers := (servers e)(roomId \<mapsto> server\<lparr>Players := ps\<rparr>)\<rparr>
          else e)"

fun step :: "Engine \<Rightarrow> action \<Rightarrow> Engine" where
  "step e (ACreateRoom roomId now desiredCardSet) = snd (CreateRoom e roomId now desiredCardSet)"
| "step e (AGetServer now roomId) = snd (GetServer e now roomId)"
| "step e (AJoinRoom roomId recoveryId playerName privateId pType) =
     snd (JoinRoom e roomId recoveryId playerName privateId pType)"
| "step e (AVote serverId privateId vote) = snd (Vote e serverId privateId vote)"
| "step e (AUnVote serverId privateId) = snd (UnVote e serverId privateId)"
| "step e (AClearVotes serverId) = snd (ClearVotes e serverId)"
| "step e (AShowVotes serverId) = snd (ShowVotes e serverId)"
| "step e (AKickPlayer serverId kickedPublicId) = snd (KickPlayer e serverId kickedPublicId)"
| "step e (ALeaveRoom serverId privateId) = snd (LeaveRoom e serverId privateId)"
| "step e (ACleanupOldRooms now maxAge) = CleanupOldRooms e now maxAge"
| "step e (Reorder roomId ps) = reorder e roomId ps"

fun run :: "Engine \<Rightarrow> action list \<Rightarrow> Engine" where
  "run e [] = e"
| "run e (a # as) = run (step e a) as"

section \<open>Notions used by the statements\<close>

text \<open>
  An engine call fails with a kind of the specification when it returns an error of that
  kind.
\<close>

definition fails_with :: "(error + 'a) \<times> Engine \<Rightarrow> kind \<Rightarrow> bool" where
  "fails_with r k = (case fst r of Inl err \<Rightarrow> kind_of err = k | Inr x \<Rightarrow> False)"

text \<open>The calls \<open>Vote\<close> and \<open>UnVote\<close> on a room.\<close>

fun votes_in :: "uuid \<Rightarrow> action \<Rightarrow> bool" where
  "votes_in roomId (AVote serverId privateId vote) = (serverId = roomId)"
| "votes_in roomId (AUnVote serverId privateId) = (serverId = roomId)"
| "votes_in roomId a = False"

text \<open>
  The calls that start a room's session afresh: \<open>ClearVotes\<close> on the room, and
  \<open>CreateRoom\<close> when the new id is the room's, which puts a new room in its place.
\<close>

fun resets :: "uuid \<Rightarrow> action \<Rightarrow> bool" where
  "resets roomId (AClearVotes serverId) = (serverId = roomId)"
| "resets roomId (ACreateRoom newId now desiredCardSet) = (newId = roomId)"
| "resets roomId a = False"

text \<open>The room's session is shown, or the room is no longer in the table.\<close>

definition shown_or_gone :: "Engine \<Rightarrow> uuid \<Rightarrow> bool" where
  "shown_or_gone e roomId =
     (case servers e roomId of None \<Rightarrow> True | Some server \<Rightarrow> IsShown (CurrentSession server))"

text \<open>
  The scenario of section 8 of the specification: a room with card set 1,2,3,5,8, a
  participant A and an observer B, and A's vote for 5; then the same room after
  \<open>ShowVotes\<close>.
\<close>

definition demo :: "action list" where
  "demo =
     [ACreateRoom 1 0 ''1,2,3,5,8'',
      AJoinRoom 1 10 ''A'' ''a1'' Participant,
      AJoinRoom 1 20 ''B'' ''b1'' Observer,
      AVote 1 ''a1'' ''5'']"

definition demoEngine :: Engine where
  "demoEngine = run NewEngine demo"

definition shownEngine :: Engine where
  "shownEngine = run demoEngine [AShowVotes 1]"

definition playerA :: Player where
  "playerA = \<lparr>Id = ''a1'', PublicId = 1, RecoveryId = 10, Name = ''A'',
               Type = Participant, Mode = Awake\<rparr>"

definition playerB :: Player where
  "playerB = \<lparr>Id = ''b1'', PublicId = 2, RecoveryId = 20, Name = ''B'',
               Type = Observer, Mode = Awake\<rparr>"

definition demoServer :: PokerServer where
  "demoServer =
     \<lparr>ServerId = 1,
      Players = [(''a1'', playerA), (''b1'', playerB)],
      CurrentSession =
        \<lparr>CardSet = [''1'', ''2'', ''3'', ''5'', ''8''], Votes = [''1'' \<mapsto> ''5''], IsShown = False\<rparr>,
      LastAccess = 0\<rparr>"

definition shownServer :: PokerServer where
  "shownServer = demoServer\<lparr>CurrentSession := (CurrentSession demoServer)\<lparr>IsShown := True\<rparr>\<rparr>"

text \<open>
  Calls made after the reveal: a third player C joins, B is kicked, and votes are attempted
  in between. \<open>frozenServer\<close> is the room they lead to.
\<close>

definition afterReveal :: "action list" where
  "afterReveal =
     [AShowVotes 1,
      AVote 1 ''a1'' ''8'',
      AJoinRoom 1 30 ''C'' ''c1'' Participant,
      AVote 1 ''c1'' ''3'',
      AUnVote 1 ''a1'',
      AGetServer 7 1,
      AKickPlayer 1 2,
      AVote 1 ''zz'' ''3'']"

definition playerC :: Player where
  "playerC = \<lparr>Id = ''c1'', PublicId = 3, RecoveryId = 30, Name = ''C'',
               Type = Participant, Mode = Awake\<rparr>"

definition frozenServer :: PokerServer where
  "frozenServer =
     \<lparr>ServerId = 1,
      Players = [(''a1'', playerA), (''c1'', playerC)],
      CurrentSession =
        \<lparr>CardSet = [''1'', ''2'', ''3'', ''5'', ''8''],
         Votes = [''1'' \<mapsto> ''5''](''2'' := None),
         IsShown = True\<rparr>,
      LastAccess = 7\<rparr>"

text \<open>
  C8 in the words of the specification: the card set of an input is what lies between its
  commas, each piece trimmed, without the pieces that are empty then, in the order of the
  input. \<open>Join\<close> puts commas between pieces (\<open>strings.Join\<close> with a comma), and \<open>spaces\<close>
  holds of the strings that are white space only.
\<close>

definition cardTokens :: "string \<Rightarrow> string list" where
  "cardTokens spec = filter (\<lambda>t. t \<noteq> []) (map TrimSpace (Split spec))"

fun Join :: "string list \<Rightarrow> string" where
  "Join [] = []"
| "Join [t] = t"
| "Join (t # u # ts) = t @ CHR '','' # Join (u # ts)"

inductive spaces :: "string \<Rightarrow> bool" where
  spaces_Nil: "spaces []"
| spaces_rune: "w \<in> set spaceRunes \<Longrightarrow> spaces s \<Longrightarrow> spaces (w @ s)"

text \<open>
  C1. The public ids of the players of a room, in the order of the list, and the pairs of
  recovery id and public id of its players; an unknown room has none.
\<close>

definition publicIds :: "Engine \<Rightarrow> uuid \<Rightarrow> int list" where
  "publicIds e roomId =
     (case servers e roomId of
        None \<Rightarrow> []
      | Some server \<Rightarrow> map (\<lambda>(k, p). PublicId p) (Players server))"

definition holders :: "Engine \<Rightarrow> uuid \<Rightarrow> (uuid \<times> int) list" where
  "holders e roomId =
     (case servers e roomId of
        None \<Rightarrow> []
      | Some server \<Rightarrow> map (\<lambda>(k, p). (RecoveryId p, PublicId p)) (Players server))"

text \<open>
  The public id that a call allocates in room \<open>r\<close>: the one of the player that \<open>JoinRoom\<close>
  returns when no player of the room has the recovery id supplied. A reconnect and the other
  calls allocate none. \<open>allocations\<close> lists the ids allocated in the room by a sequence of
  calls, in the order of the calls.
\<close>

fun allocated :: "Engine \<Rightarrow> uuid \<Rightarrow> action \<Rightarrow> int option" where
  "allocated e r (AJoinRoom roomId recoveryId playerName privateId pType) =
     (case servers e roomId of
        None \<Rightarrow> None
      | Some server \<Rightarrow>
          if roomId = r \<and> find (\<lambda>(k, p). RecoveryId p = recoveryId) (Players server) = None
          then (case fst (JoinRoom e roomId recoveryId playerName privateId pType) of
                  Inl err \<Rightarrow> None
                | Inr player \<Rightarrow> Some (PublicId player))
          else None)"
| "allocated e r a = None"

fun allocations :: "Engine \<Rightarrow> uuid \<Rightarrow> action list \<Rightarrow> int list" where
  "allocations e r [] = []"
| "allocations e r (a # as) =
     (case allocated e r a of None \<Rightarrow> [] | Some n \<Rightarrow> [n]) @ allocations (step e a) r as"

text \<open>
  No public id leaves the room during the sequence: each one held by a player before a
  call is held by a player after it.
\<close>

fun quiet :: "Engine \<Rightarrow> uuid \<Rightarrow> action list \<Rightarrow> bool" where
  "quiet e r [] = True"
| "quiet e r (a # as) =
     (list_all (\<lambda>n. n \<in> set (publicIds (step e a) r)) (publicIds e r) \<and> quiet (step e a) r as)"

text \<open>
  Three players join a room, and A reconnects in between; A joins and leaves, then B joins;
  A and B join, B is kicked, then C joins.
\<close>

definition threeJoin :: "action list" where
  "threeJoin =
     [ACreateRoom 1 0 ''1,2,3'',
      AJoinRoom 1 7 ''A'' ''c1'' Participant,
      AJoinRoom 1 8 ''B'' ''c2'' Participant,
      AVote 1 ''c1'' ''2'',
      AJoinRoom 1 7 ''A'' ''c3'' Observer,
      AShowVotes 1,
      AJoinRoom 1 9 ''C'' ''c4'' Participant,
      AClearVotes 1]"

definition leaveAndJoin :: "action list" where
  "leaveAndJoin =
     [ACreateRoom 1 0 ''1,2,3'',
      AJoinRoom 1 7 ''A'' ''c1'' Participant,
      ALeaveRoom 1 ''c1'',
      AJoinRoom 1 8 ''B'' ''c2'' Participant]"

definition kickAndJoin :: "action list" where
  "kickAndJoin =
     [ACreateRoom 1 0 ''1,2,3'',
      AJoinRoom 1 7 ''A'' ''c1'' Participant,
      AJoinRoom 1 8 ''B'' ''c2'' Participant,
      AKickPlayer 1 2,
      AJoinRoom 1 9 ''C'' ''c3'' Participant]"

text \<open>
  C3. Some player of the room has the type Observer and a vote under the decimal string of
  their public id.
\<close>

definition observer_has_vote :: "PokerServer \<Rightarrow> bool" where
  "observer_has_vote server =
     list_ex (\<lambda>(k, p). Type p = Observer \<and>
                Votes (CurrentSession server) (Sprintf_d (PublicId p)) \<noteq> None)
       (Players server)"

text \<open>
  A joins as Participant and votes 2, then joins again with the same recovery id, on a new
  connection, as Observer. \<open>turnedServer\<close> is the room this leads to.
\<close>

definition turnObserver :: "action list" where
  "turnObserver =
     [ACreateRoom 1 0 ''1,2,3'',
      AJoinRoom 1 7 ''A'' ''c1'' Participant,
      AVote 1 ''c1'' ''2'',
      AJoinRoom 1 7 ''A'' ''c2'' Observer]"

definition turnedServer :: PokerServer where
  "turnedServer =
     \<lparr>ServerId = 1,
      Players = [(''c2'', \<lparr>Id = ''c2'', PublicId = 1, RecoveryId = 7, Name = ''A'',
                           Type = Observer, Mode = Awake\<rparr>)],
      CurrentSession = \<lparr>CardSet = [''1'', ''2'', ''3''], Votes = [''1'' \<mapsto> ''2''], IsShown = False\<rparr>,
      LastAccess = 0\<rparr>"

text \<open>
  The players of a room as the engine keeps them: one entry for a private id, stored in
  the player's \<open>Id\<close> too, and no two players with the same recovery id or the same public
  id. Every room of an engine that \<open>engine_inv\<close> holds of is like that.
\<close>

definition players_inv :: "(string \<times> Player) list \<Rightarrow> bool" where
  "players_inv ps \<longleftrightarrow>
     distinct (map fst ps) \<and>
     list_all (\<lambda>(k, p). Id p = k) ps \<and>
     distinct (map (\<lambda>(k, p). RecoveryId p) ps) \<and>
     distinct (map (\<lambda>(k, p). PublicId p) ps)"

definition engine_inv :: "Engine \<Rightarrow> bool" where
  "engine_inv e \<longleftrightarrow>
     (\<forall>roomId server. servers e roomId = Some server \<longrightarrow> players_inv (Players server))"

section \<open>Lists\<close>

lemma find_Some_in: "find P xs = Some x \<Longrightarrow> x \<in> set xs \<and> P x"
  by (induction xs) (auto split: if_splits)

lemma sorted_le_last: "sorted xs \<Longrightarrow> x \<in> set xs \<Longrightarrow> x \<le> last xs"
  by (induction xs) auto

lemma last_sort_Max:
  fixes xs :: "int list"
  assumes "xs \<noteq> []"
  shows "last (sort xs) = Max (set xs)"
proof -
  from assms have ne: "sort xs \<noteq> []"
    by (metis set_sort set_empty)
  have "Max (set xs) = last (sort xs)"
  proof (rule Max_eqI)
    show "finite (set xs)" by simp
  next
    fix y assume "y \<in> set xs"
    then have "y \<in> set (sort xs)" by simp
    then show "y \<le> last (sort xs)"
      by (rule sorted_le_last [OF sorted_sort])
  next
    from ne have "last (sort xs) \<in> set (sort xs)"
      by (rule last_in_set)
    then show "last (sort xs) \<in> set xs" by simp
  qed
  then show ?thesis by simp
qed

section \<open>The scenario, evaluated\<close>

lemma demo_cards: "cleanCards [] (Split ''1,2,3,5,8'') = [''1'', ''2'', ''3'', ''5'', ''8'']"
  by code_simp

lemma Sprintf_d_1: "Sprintf_d 1 = ''1''"
  by code_simp

lemma Sprintf_d_2: "Sprintf_d 2 = ''2''"
  by code_simp

lemma demoEngine_eq: "demoEngine = \<lparr>servers = [1 \<mapsto> demoServer]\<rparr>"
  by (simp add: demoEngine_def demo_def NewEngine_def CreateRoom_def JoinRoom_def Vote_def
      demo_cards Sprintf_d_1 Let_def demoServer_def playerA_def playerB_def
      Participant_def Observer_def)

lemma shownEngine_eq: "shownEngine = \<lparr>servers = [1 \<mapsto> shownServer]\<rparr>"
  by (simp add: shownEngine_def demoEngine_eq ShowVotes_def shownServer_def)

section \<open>Vote\<close>

text \<open>
  C6. \<open>Vote\<close> fails with NotFound when the room or the player is unknown, with Forbidden
  when the player's type is Observer, with Locked when the session is shown, each check
  made in this order and each failure leaving the engine as it was; otherwise it succeeds
  and stores the value under the decimal string of the player's public id, replacing what
  was recorded there, and changes nothing else.
\<close>

theorem Vote_spec:
  "(servers e serverId = None \<longrightarrow>
      fails_with (Vote e serverId privateId vote) NotFound \<and>
      snd (Vote e serverId privateId vote) = e) \<and>
   (\<forall>server. servers e serverId = Some server \<longrightarrow>
      (map_of (Players server) privateId = None \<longrightarrow>
         fails_with (Vote e serverId privateId vote) NotFound \<and>
         snd (Vote e serverId privateId vote) = e) \<and>
      (\<forall>player. map_of (Players server) privateId = Some player \<longrightarrow>
         (Type player = Observer \<longrightarrow>
            fails_with (Vote e serverId privateId vote) Forbidden \<and>
            snd (Vote e serverId privateId vote) = e) \<and>
         (Type player \<noteq> Observer \<and> IsShown (CurrentSession server) \<longrightarrow>
            fails_with (Vote e serverId privateId vote) Locked \<and>
            snd (Vote e serverId privateId vote) = e) \<and>
         (Type player \<noteq> Observer \<and> \<not> IsShown (CurrentSession server) \<longrightarrow>
            Vote e serverId privateId vote =
              (Inr (),
               e\<lparr>servers := (servers e)(serverId \<mapsto>
                    server\<lparr>CurrentSession := (CurrentSession server)
                      \<lparr>Votes := (Votes (CurrentSession server))
                                   (Sprintf_d (PublicId player) \<mapsto> vote)\<rparr>\<rparr>)\<rparr>))))"
  by (simp add: Vote_def Let_def fails_with_def)

theorem Vote_spec_witness:
  "servers demoEngine 2 = None \<and>
   fails_with (Vote demoEngine 2 ''a1'' ''8'') NotFound \<and>
   servers demoEngine 1 = Some demoServer \<and>
   map_of (Players demoServer) ''zz'' = None \<and>
   fails_with (Vote demoEngine 1 ''zz'' ''8'') NotFound \<and>
   map_of (Players demoServer) ''b1'' = Some playerB \<and> Type playerB = Observer \<and>
   fails_with (Vote demoEngine 1 ''b1'' ''8'') Forbidden \<and>
   servers shownEngine 1 = Some shownServer \<and>
   map_of (Players shownServer) ''a1'' = Some playerA \<and> Type playerA \<noteq> Observer \<and>
   IsShown (CurrentSession shownServer) \<and>
   fails_with (Vote shownEngine 1 ''a1'' ''8'') Locked \<and>
   \<not> IsShown (CurrentSession demoServer) \<and>
   Vote demoEngine 1 ''a1'' ''8'' =
     (Inr (),
      \<lparr>servers = [1 \<mapsto> demoServer\<lparr>CurrentSession :=
         (CurrentSession demoServer)\<lparr>Votes := [''1'' \<mapsto> ''8'']\<rparr>\<rparr>]\<rparr>)"
  using Vote_spec [of demoEngine 2 "''a1''" "''8''"]
    Vote_spec [of demoEngine 1 "''zz''" "''8''"]
    Vote_spec [of demoEngine 1 "''b1''" "''8''"]
    Vote_spec [of shownEngine 1 "''a1''" "''8''"]
    Vote_spec [of demoEngine 1 "''a1''" "''8''"]
  by (simp add: demoEngine_eq shownEngine_eq demoServer_def shownServer_def playerA_def
      playerB_def Participant_def Observer_def Sprintf_d_1)

section \<open>ClearVotes\<close>

text \<open>
  C9. \<open>ClearVotes\<close> fails exactly when the room is unknown, and then with NotFound; on a
  known room, whatever its session held, the session afterwards has no votes and is not
  shown, and nothing else of the room changes; running it a second time changes nothing.
\<close>

theorem ClearVotes_spec:
  "(servers e serverId = None \<longrightarrow>
      fails_with (ClearVotes e serverId) NotFound \<and> snd (ClearVotes e serverId) = e) \<and>
   (\<forall>server. servers e serverId = Some server \<longrightarrow>
      ClearVotes e serverId =
        (Inr (),
         e\<lparr>servers := (servers e)(serverId \<mapsto>
              server\<lparr>CurrentSession :=
                (CurrentSession server)\<lparr>Votes := Map.empty, IsShown := False\<rparr>\<rparr>)\<rparr>)) \<and>
   snd (ClearVotes (snd (ClearVotes e serverId)) serverId) = snd (ClearVotes e serverId)"
  by (cases "servers e serverId") (simp_all add: ClearVotes_def Let_def fails_with_def)

theorem ClearVotes_spec_witness:
  "servers shownEngine 2 = None \<and>
   fails_with (ClearVotes shownEngine 2) NotFound \<and>
   servers shownEngine 1 = Some shownServer \<and>
   IsShown (CurrentSession shownServer) \<and>
   Votes (CurrentSession shownServer) ''1'' = Some ''5'' \<and>
   ClearVotes shownEngine 1 =
     (Inr (),
      shownEngine\<lparr>servers := (servers shownEngine)(1 \<mapsto>
        shownServer\<lparr>CurrentSession :=
          (CurrentSession shownServer)\<lparr>Votes := Map.empty, IsShown := False\<rparr>\<rparr>)\<rparr>) \<and>
   snd (ClearVotes (snd (ClearVotes shownEngine 1)) 1) = snd (ClearVotes shownEngine 1)"
proof -
  have unknown: "servers shownEngine 2 = None"
    by (simp add: shownEngine_eq)
  have known: "servers shownEngine 1 = Some shownServer"
    by (simp add: shownEngine_eq)
  have before: "IsShown (CurrentSession shownServer) \<and>
      Votes (CurrentSession shownServer) ''1'' = Some ''5''"
    by (simp add: shownServer_def demoServer_def)
  from unknown ClearVotes_spec [of shownEngine 2]
  have c1: "fails_with (ClearVotes shownEngine 2) NotFound"
    by blast
  from known ClearVotes_spec [of shownEngine 1]
  have c2: "ClearVotes shownEngine 1 =
     (Inr (),
      shownEngine\<lparr>servers := (servers shownEngine)(1 \<mapsto>
        shownServer\<lparr>CurrentSession :=
          (CurrentSession shownServer)\<lparr>Votes := Map.empty, IsShown := False\<rparr>\<rparr>)\<rparr>)"
    by blast
  from ClearVotes_spec [of shownEngine 1]
  have c3: "snd (ClearVotes (snd (ClearVotes shownEngine 1)) 1) = snd (ClearVotes shownEngine 1)"
    by blast
  from unknown known before c1 c2 c3 show ?thesis
    by blast
qed

section \<open>Failure leaves the engine as it was\<close>

text \<open>
  C7. Whenever \<open>CreateRoom\<close>, \<open>JoinRoom\<close>, \<open>Vote\<close>, \<open>UnVote\<close>, \<open>ShowVotes\<close>,
  \<open>ClearVotes\<close> or \<open>KickPlayer\<close> returns an error, or \<open>LeaveRoom\<close> returns its
  \<open>("", false)\<close>, the room table afterwards is the room table before the call.
\<close>

theorem failure_is_atomic:
  "(fst (CreateRoom e roomId now desiredCardSet) = Inl err \<longrightarrow>
      snd (CreateRoom e roomId now desiredCardSet) = e) \<and>
   (fst (JoinRoom e serverId recoveryId playerName privateId pType) = Inl err \<longrightarrow>
      snd (JoinRoom e serverId recoveryId playerName privateId pType) = e) \<and>
   (fst (Vote e serverId privateId vote) = Inl err \<longrightarrow>
      snd (Vote e serverId privateId vote) = e) \<and>
   (fst (UnVote e serverId privateId) = Inl err \<longrightarrow>
      snd (UnVote e serverId privateId) = e) \<and>
   (fst (ShowVotes e serverId) = Inl err \<longrightarrow> snd (ShowVotes e serverId) = e) \<and>
   (fst (ClearVotes e serverId) = Inl err \<longrightarrow> snd (ClearVotes e serverId) = e) \<and>
   (fst (KickPlayer e serverId kickedPublicId) = Inl err \<longrightarrow>
      snd (KickPlayer e serverId kickedPublicId) = e) \<and>
   (fst (LeaveRoom e serverId privateId) = None \<longrightarrow>
      snd (LeaveRoom e serverId privateId) = e)"
proof (intro conjI impI)
  assume "fst (CreateRoom e roomId now desiredCardSet) = Inl err"
  then show "snd (CreateRoom e roomId now desiredCardSet) = e"
    by (auto simp: CreateRoom_def Let_def split: if_splits)
next
  assume "fst (JoinRoom e serverId recoveryId playerName privateId pType) = Inl err"
  then show "snd (JoinRoom e serverId recoveryId playerName privateId pType) = e"
    by (auto simp: JoinRoom_def Let_def split: option.splits prod.splits)
next
  assume "fst (Vote e serverId privateId vote) = Inl err"
  then show "snd (Vote e serverId privateId vote) = e"
    by (auto simp: Vote_def Let_def split: option.splits if_splits)
next
  assume "fst (UnVote e serverId privateId) = Inl err"
  then show "snd (UnVote e serverId privateId) = e"
    by (auto simp: UnVote_def Let_def split: option.splits if_splits)
next
  assume "fst (ShowVotes e serverId) = Inl err"
  then show "snd (ShowVotes e serverId) = e"
    by (auto simp: ShowVotes_def Let_def split: option.splits)
next
  assume "fst (ClearVotes e serverId) = Inl err"
  then show "snd (ClearVotes e serverId) = e"
    by (auto simp: ClearVotes_def Let_def split: option.splits)
next
  assume "fst (KickPlayer e serverId kickedPublicId) = Inl err"
  then show "snd (KickPlayer e serverId kickedPublicId) = e"
    by (auto simp: KickPlayer_def Let_def split: option.splits prod.splits)
next
  assume "fst (LeaveRoom e serverId privateId) = None"
  then show "snd (LeaveRoom e serverId privateId) = e"
    by (auto simp: LeaveRoom_def Let_def split: option.splits)
qed

lemma empty_cards: "cleanCards [] (Split '' , ,'') = []"
  by code_simp

theorem failure_is_atomic_witness:
  "fst (CreateRoom shownEngine 5 7 '' , ,'') = Inl CardSetEmpty \<and>
   snd (CreateRoom shownEngine 5 7 '' , ,'') = shownEngine \<and>
   fst (JoinRoom shownEngine 2 30 ''C'' ''c1'' Participant) = Inl RoomNotFound \<and>
   snd (JoinRoom shownEngine 2 30 ''C'' ''c1'' Participant) = shownEngine \<and>
   fst (Vote shownEngine 1 ''b1'' ''3'') = Inl ObserversCannotVote \<and>
   snd (Vote shownEngine 1 ''b1'' ''3'') = shownEngine \<and>
   fst (UnVote shownEngine 1 ''a1'') = Inl CannotRedactVote \<and>
   snd (UnVote shownEngine 1 ''a1'') = shownEngine \<and>
   fst (ShowVotes shownEngine 2) = Inl RoomNotFound \<and>
   snd (ShowVotes shownEngine 2) = shownEngine \<and>
   fst (ClearVotes shownEngine 2) = Inl RoomNotFound \<and>
   snd (ClearVotes shownEngine 2) = shownEngine \<and>
   fst (KickPlayer shownEngine 1 3) = Inl PlayerNotFound \<and>
   snd (KickPlayer shownEngine 1 3) = shownEngine \<and>
   fst (LeaveRoom shownEngine 1 ''zz'') = None \<and>
   snd (LeaveRoom shownEngine 1 ''zz'') = shownEngine"
proof -
  have 1: "fst (CreateRoom shownEngine 5 7 '' , ,'') = Inl CardSetEmpty"
    by (simp add: CreateRoom_def empty_cards)
  have 2: "fst (JoinRoom shownEngine 2 30 ''C'' ''c1'' Participant) = Inl RoomNotFound"
    by (simp add: JoinRoom_def shownEngine_eq)
  have 3: "fst (Vote shownEngine 1 ''b1'' ''3'') = Inl ObserversCannotVote"
    by (simp add: Vote_def shownEngine_eq shownServer_def demoServer_def playerB_def)
  have 4: "fst (UnVote shownEngine 1 ''a1'') = Inl CannotRedactVote"
    by (simp add: UnVote_def shownEngine_eq shownServer_def demoServer_def)
  have 5: "fst (ShowVotes shownEngine 2) = Inl RoomNotFound"
    by (simp add: ShowVotes_def shownEngine_eq)
  have 6: "fst (ClearVotes shownEngine 2) = Inl RoomNotFound"
    by (simp add: ClearVotes_def shownEngine_eq)
  have 7: "fst (KickPlayer shownEngine 1 3) = Inl PlayerNotFound"
    by (simp add: KickPlayer_def shownEngine_eq shownServer_def demoServer_def playerA_def
        playerB_def)
  have 8: "fst (LeaveRoom shownEngine 1 ''zz'') = None"
    by (simp add: LeaveRoom_def shownEngine_eq shownServer_def demoServer_def)
  show ?thesis
    using 1 2 3 4 5 6 7 8
      failure_is_atomic [of shownEngine 5 7 "'' , ,''" CardSetEmpty]
      failure_is_atomic [of shownEngine _ _ _ RoomNotFound 2 30 "''C''" "''c1''" Participant]
      failure_is_atomic [of shownEngine _ _ _ ObserversCannotVote 1 _ _ "''b1''" _ "''3''"]
      failure_is_atomic [of shownEngine _ _ _ CannotRedactVote 1 _ _ "''a1''"]
      failure_is_atomic [of shownEngine _ _ _ RoomNotFound 2]
      failure_is_atomic [of shownEngine _ _ _ PlayerNotFound 1 _ _ _ _ _ 3]
      failure_is_atomic [of shownEngine _ _ _ _ 1 _ _ "''zz''"]
    by simp
qed

section \<open>UnVote\<close>

text \<open>
  C4, as the code has it. In a known room whose session is not shown, \<open>UnVote\<close> with a
  private id that matches no player fails with NotFound (the error "player not found")
  and leaves the engine as it was; with the private id of a player it succeeds and removes
  the entry under the decimal string of that player's public id, if there is one, and
  changes nothing else. An unknown room fails with NotFound and a shown session with
  Locked, before the player is looked up.
\<close>

theorem UnVote_spec:
  "(servers e serverId = None \<longrightarrow>
      fails_with (UnVote e serverId privateId) NotFound \<and>
      snd (UnVote e serverId privateId) = e) \<and>
   (\<forall>server. servers e serverId = Some server \<longrightarrow>
      (IsShown (CurrentSession server) \<longrightarrow>
         fails_with (UnVote e serverId privateId) Locked \<and>
         snd (UnVote e serverId privateId) = e) \<and>
      (\<not> IsShown (CurrentSession server) \<and> map_of (Players server) privateId = None \<longrightarrow>
         fails_with (UnVote e serverId privateId) NotFound \<and>
         snd (UnVote e serverId privateId) = e) \<and>
      (\<forall>player. \<not> IsShown (CurrentSession server) \<and>
           map_of (Players server) privateId = Some player \<longrightarrow>
         UnVote e serverId privateId =
           (Inr (),
            e\<lparr>servers := (servers e)(serverId \<mapsto>
                 server\<lparr>CurrentSession := (CurrentSession server)
                   \<lparr>Votes := (Votes (CurrentSession server))
                                (Sprintf_d (PublicId player) := None)\<rparr>\<rparr>)\<rparr>)))"
  by (simp add: UnVote_def Let_def fails_with_def)

theorem UnVote_spec_witness:
  "servers demoEngine 1 = Some demoServer \<and>
   \<not> IsShown (CurrentSession demoServer) \<and>
   map_of (Players demoServer) ''zz'' = None \<and>
   fails_with (UnVote demoEngine 1 ''zz'') NotFound \<and>
   snd (UnVote demoEngine 1 ''zz'') = demoEngine \<and>
   map_of (Players demoServer) ''a1'' = Some playerA \<and>
   Votes (CurrentSession demoServer) (Sprintf_d (PublicId playerA)) = Some ''5'' \<and>
   UnVote demoEngine 1 ''a1'' =
     (Inr (),
      demoEngine\<lparr>servers := (servers demoEngine)(1 \<mapsto>
        demoServer\<lparr>CurrentSession := (CurrentSession demoServer)
          \<lparr>Votes := (Votes (CurrentSession demoServer))
                       (Sprintf_d (PublicId playerA) := None)\<rparr>\<rparr>)\<rparr>)"
proof -
  have known: "servers demoEngine 1 = Some demoServer"
    by (simp add: demoEngine_eq)
  have hidden: "\<not> IsShown (CurrentSession demoServer)"
    by (simp add: demoServer_def)
  have nobody: "map_of (Players demoServer) ''zz'' = None"
    by (simp add: demoServer_def)
  have somebody: "map_of (Players demoServer) ''a1'' = Some playerA"
    by (simp add: demoServer_def)
  have voted: "Votes (CurrentSession demoServer) (Sprintf_d (PublicId playerA)) = Some ''5''"
    by (simp add: demoServer_def playerA_def Sprintf_d_1)
  from known hidden nobody UnVote_spec [of demoEngine 1 "''zz''"]
  have c1: "fails_with (UnVote demoEngine 1 ''zz'') NotFound \<and>
      snd (UnVote demoEngine 1 ''zz'') = demoEngine"
    by blast
  from known hidden somebody UnVote_spec [of demoEngine 1 "''a1''"]
  have c2: "UnVote demoEngine 1 ''a1'' =
     (Inr (),
      demoEngine\<lparr>servers := (servers demoEngine)(1 \<mapsto>
        demoServer\<lparr>CurrentSession := (CurrentSession demoServer)
          \<lparr>Votes := (Votes (CurrentSession demoServer))
                       (Sprintf_d (PublicId playerA) := None)\<rparr>\<rparr>)\<rparr>)"
    by blast
  from known hidden nobody somebody voted c1 c2 show ?thesis
    by blast
qed

text \<open>
  C4 as it is written says that the call with an unknown private id reports no error.
  In the scenario, \<open>UnVote\<close> with the private id \<open>zz\<close>, which no player has, returns the
  error "player not found".
\<close>

theorem UnVote_unknown_player_counterexample:
  "servers demoEngine 1 = Some demoServer \<and>
   \<not> IsShown (CurrentSession demoServer) \<and>
   map_of (Players demoServer) ''zz'' = None \<and>
   fst (UnVote demoEngine 1 ''zz'') = Inl PlayerNotFound \<and>
   fst (UnVote demoEngine 1 ''zz'') \<noteq> Inr ()"
  by (simp add: demoEngine_eq demoServer_def UnVote_def)

section \<open>Votes of a shown session\<close>

lemma step_keeps_shown:
  assumes "\<not> resets roomId a" and "shown_or_gone e roomId"
  shows "shown_or_gone (step e a) roomId"
proof (cases a)
  case (ACreateRoom newId now desiredCardSet)
  with assms show ?thesis
    by (auto simp: shown_or_gone_def CreateRoom_def Let_def split: option.splits)
next
  case (AGetServer now serverId)
  with assms show ?thesis
    by (auto simp: shown_or_gone_def GetServer_def Let_def split: option.splits)
next
  case (AJoinRoom serverId recoveryId playerName privateId pType)
  with assms show ?thesis
    by (auto simp: shown_or_gone_def JoinRoom_def Let_def split: option.splits prod.splits)
next
  case (AVote serverId privateId vote)
  with assms show ?thesis
    by (auto simp: shown_or_gone_def Vote_def Let_def split: option.splits)
next
  case (AUnVote serverId privateId)
  with assms show ?thesis
    by (auto simp: shown_or_gone_def UnVote_def Let_def split: option.splits)
next
  case (AClearVotes serverId)
  with assms show ?thesis
    by (auto simp: shown_or_gone_def ClearVotes_def Let_def split: option.splits)
next
  case (AShowVotes serverId)
  with assms show ?thesis
    by (auto simp: shown_or_gone_def ShowVotes_def Let_def split: option.splits)
next
  case (AKickPlayer serverId kickedPublicId)
  with assms show ?thesis
    by (auto simp: shown_or_gone_def KickPlayer_def Let_def split: option.splits prod.splits)
next
  case (ALeaveRoom serverId privateId)
  with assms show ?thesis
    by (auto simp: shown_or_gone_def LeaveRoom_def Let_def split: option.splits)
next
  case (ACleanupOldRooms now maxAge)
  with assms show ?thesis
    by (auto simp: shown_or_gone_def CleanupOldRooms_def split: option.splits)
next
  case (Reorder serverId ps)
  with assms show ?thesis
    by (auto simp: shown_or_gone_def reorder_def split: option.splits)
qed

lemma run_keeps_shown:
  "list_all (\<lambda>a. \<not> resets roomId a) acts \<Longrightarrow> shown_or_gone e roomId \<Longrightarrow>
   shown_or_gone (run e acts) roomId"
  by (induction acts arbitrary: e) (simp_all add: step_keeps_shown)

lemma shown_step_votes_in:
  assumes "votes_in roomId a" and "shown_or_gone e roomId"
  shows "step e a = e"
proof (cases a)
  case (AVote serverId privateId vote)
  with assms show ?thesis
    by (auto simp: shown_or_gone_def Vote_def Let_def split: option.splits)
next
  case (AUnVote serverId privateId)
  with assms show ?thesis
    by (auto simp: shown_or_gone_def UnVote_def Let_def split: option.splits)
qed (use assms in simp_all)

lemma shown_run_votes_in:
  "list_all (\<lambda>a. \<not> resets roomId a) acts \<Longrightarrow> shown_or_gone e roomId \<Longrightarrow>
   run e acts = run e (filter (\<lambda>a. \<not> votes_in roomId a) acts)"
proof (induction acts arbitrary: e)
  case Nil
  show ?case by simp
next
  case (Cons a acts)
  show ?case
  proof (cases "votes_in roomId a")
    case True
    with Cons.prems have "step e a = e"
      by (simp add: shown_step_votes_in)
    with Cons True show ?thesis by simp
  next
    case False
    from Cons.prems have "shown_or_gone (step e a) roomId"
      by (simp add: step_keeps_shown)
    with Cons False show ?thesis by simp
  qed
qed

lemma afterReveal_eq: "servers (run shownEngine afterReveal) 1 = Some frozenServer"
  by (simp add: afterReveal_def shownEngine_eq shownServer_def demoServer_def frozenServer_def
      ShowVotes_def Vote_def UnVote_def JoinRoom_def GetServer_def KickPlayer_def Let_def
      playerA_def playerB_def playerC_def Participant_def Observer_def Sprintf_d_2)

text \<open>
  C5, as the code has it. Take a room whose session is shown, and any sequence of engine
  calls, on this room or on others, none of which is \<open>ClearVotes\<close> on the room (nor a
  \<open>CreateRoom\<close> that replaces it). After the sequence the room is still shown, unless
  \<open>CleanupOldRooms\<close> removed it; the \<open>Vote\<close> and \<open>UnVote\<close> calls on the room that the
  sequence contains changed nothing, since the engine is the one reached without them; and
  every further \<open>Vote\<close> and \<open>UnVote\<close> on the room is rejected and leaves the engine as
  it is. \<open>UnVote\<close> is rejected with Locked, and \<open>Vote\<close> with Locked when the private id
  is that of a player who is not an Observer; \<open>Vote\<close> reports an unknown player first,
  with NotFound, and an Observer with Forbidden, and both calls report a removed room with
  NotFound. \<open>ClearVotes\<close> then leaves the session not shown and without votes and changes
  nothing else, and the vote of that player is accepted again.
\<close>

theorem shown_votes_frozen:
  assumes "servers e serverId = Some server"
    and "IsShown (CurrentSession server)"
    and "list_all (\<lambda>a. \<not> resets serverId a) acts"
  shows "shown_or_gone (run e acts) serverId \<and>
     run e acts = run e (filter (\<lambda>a. \<not> votes_in serverId a) acts) \<and>
     snd (Vote (run e acts) serverId privateId vote) = run e acts \<and>
     snd (UnVote (run e acts) serverId privateId) = run e acts \<and>
     (servers (run e acts) serverId = None \<longrightarrow>
        fails_with (Vote (run e acts) serverId privateId vote) NotFound \<and>
        fails_with (UnVote (run e acts) serverId privateId) NotFound) \<and>
     (\<forall>server'. servers (run e acts) serverId = Some server' \<longrightarrow>
        IsShown (CurrentSession server') \<and>
        fails_with (UnVote (run e acts) serverId privateId) Locked \<and>
        (map_of (Players server') privateId = None \<longrightarrow>
           fails_with (Vote (run e acts) serverId privateId vote) NotFound) \<and>
        (\<forall>player. map_of (Players server') privateId = Some player \<longrightarrow>
           (Type player = Observer \<longrightarrow>
              fails_with (Vote (run e acts) serverId privateId vote) Forbidden) \<and>
           (Type player \<noteq> Observer \<longrightarrow>
              fails_with (Vote (run e acts) serverId privateId vote) Locked \<and>
              fst (Vote (snd (ClearVotes (run e acts) serverId)) serverId privateId vote) =
                Inr ())) \<and>
        ClearVotes (run e acts) serverId =
          (Inr (),
           (run e acts)\<lparr>servers := (servers (run e acts))(serverId \<mapsto>
              server'\<lparr>CurrentSession :=
                (CurrentSession server')\<lparr>Votes := Map.empty, IsShown := False\<rparr>\<rparr>)\<rparr>))"
proof -
  from assms(1,2) have start: "shown_or_gone e serverId"
    by (simp add: shown_or_gone_def)
  with assms(3) have still: "shown_or_gone (run e acts) serverId"
    by (rule run_keeps_shown)
  from assms(3) start
  have same: "run e acts = run e (filter (\<lambda>a. \<not> votes_in serverId a) acts)"
    by (rule shown_run_votes_in)
  have vote: "snd (Vote (run e acts) serverId privateId vote) = run e acts"
    using still by (auto simp: shown_or_gone_def Vote_def split: option.splits)
  have unvote: "snd (UnVote (run e acts) serverId privateId) = run e acts"
    using still by (auto simp: shown_or_gone_def UnVote_def split: option.splits)
  have gone: "servers (run e acts) serverId = None \<longrightarrow>
        fails_with (Vote (run e acts) serverId privateId vote) NotFound \<and>
        fails_with (UnVote (run e acts) serverId privateId) NotFound"
    by (simp add: Vote_def UnVote_def fails_with_def)
  have there: "\<forall>server'. servers (run e acts) serverId = Some server' \<longrightarrow>
        IsShown (CurrentSession server') \<and>
        fails_with (UnVote (run e acts) serverId privateId) Locked \<and>
        (map_of (Players server') privateId = None \<longrightarrow>
           fails_with (Vote (run e acts) serverId privateId vote) NotFound) \<and>
        (\<forall>player. map_of (Players server') privateId = Some player \<longrightarrow>
           (Type player = Observer \<longrightarrow>
              fails_with (Vote (run e acts) serverId privateId vote) Forbidden) \<and>
           (Type player \<noteq> Observer \<longrightarrow>
              fails_with (Vote (run e acts) serverId privateId vote) Locked \<and>
              fst (Vote (snd (ClearVotes (run e acts) serverId)) serverId privateId vote) =
                Inr ())) \<and>
        ClearVotes (run e acts) serverId =
          (Inr (),
           (run e acts)\<lparr>servers := (servers (run e acts))(serverId \<mapsto>
              server'\<lparr>CurrentSession :=
                (CurrentSession server')\<lparr>Votes := Map.empty, IsShown := False\<rparr>\<rparr>)\<rparr>)"
    using still
    by (auto simp: shown_or_gone_def Vote_def UnVote_def ClearVotes_def fails_with_def Let_def)
  from still same vote unvote gone there show ?thesis
    by blast
qed

theorem shown_votes_frozen_witness:
  "servers shownEngine 1 = Some shownServer \<and>
   IsShown (CurrentSession shownServer) \<and>
   list_all (\<lambda>a. \<not> resets 1 a) afterReveal \<and>
   servers (run shownEngine afterReveal) 1 = Some frozenServer \<and>
   Votes (CurrentSession frozenServer) ''1'' = Some ''5'' \<and>
   run shownEngine afterReveal =
     run shownEngine
       [AShowVotes 1, AJoinRoom 1 30 ''C'' ''c1'' Participant, AGetServer 7 1, AKickPlayer 1 2] \<and>
   map_of (Players frozenServer) ''c1'' = Some playerC \<and> Type playerC \<noteq> Observer \<and>
   fails_with (Vote (run shownEngine afterReveal) 1 ''c1'' ''8'') Locked \<and>
   snd (Vote (run shownEngine afterReveal) 1 ''c1'' ''8'') = run shownEngine afterReveal \<and>
   fails_with (UnVote (run shownEngine afterReveal) 1 ''c1'') Locked \<and>
   snd (UnVote (run shownEngine afterReveal) 1 ''c1'') = run shownEngine afterReveal \<and>
   fst (Vote (snd (ClearVotes (run shownEngine afterReveal) 1)) 1 ''c1'' ''8'') = Inr ()"
proof -
  have known: "servers shownEngine 1 = Some shownServer"
    by (simp add: shownEngine_eq)
  have shown: "IsShown (CurrentSession shownServer)"
    by (simp add: shownServer_def)
  have calls: "list_all (\<lambda>a. \<not> resets 1 a) afterReveal"
    by (simp add: afterReveal_def)
  have others: "filter (\<lambda>a. \<not> votes_in 1 a) afterReveal =
      [AShowVotes 1, AJoinRoom 1 30 ''C'' ''c1'' Participant, AGetServer 7 1, AKickPlayer 1 2]"
    by (simp add: afterReveal_def)
  have after: "servers (run shownEngine afterReveal) 1 = Some frozenServer"
    by (rule afterReveal_eq)
  have kept: "Votes (CurrentSession frozenServer) ''1'' = Some ''5''"
    by (simp add: frozenServer_def)
  have player: "map_of (Players frozenServer) ''c1'' = Some playerC \<and> Type playerC \<noteq> Observer"
    by (simp add: frozenServer_def playerC_def Participant_def Observer_def)
  note frozen = shown_votes_frozen [OF known shown calls, of "''c1''" "''8''"]
  from frozen others
  have same: "run shownEngine afterReveal =
     run shownEngine
       [AShowVotes 1, AJoinRoom 1 30 ''C'' ''c1'' Participant, AGetServer 7 1, AKickPlayer 1 2]"
    by simp
  from after player frozen
  have rejected: "fails_with (Vote (run shownEngine afterReveal) 1 ''c1'' ''8'') Locked \<and>
   snd (Vote (run shownEngine afterReveal) 1 ''c1'' ''8'') = run shownEngine afterReveal \<and>
   fails_with (UnVote (run shownEngine afterReveal) 1 ''c1'') Locked \<and>
   snd (UnVote (run shownEngine afterReveal) 1 ''c1'') = run shownEngine afterReveal \<and>
   fst (Vote (snd (ClearVotes (run shownEngine afterReveal) 1)) 1 ''c1'' ''8'') = Inr ()"
    by blast
  from known shown calls after kept same player rejected show ?thesis
    by blast
qed

text \<open>
  C5 as it is written says that both calls are rejected with Locked. In the shown room of
  the scenario the Observer's \<open>Vote\<close> is rejected with Forbidden, and the \<open>Vote\<close> of a
  private id that no player has with NotFound.
\<close>

theorem shown_vote_not_Locked_counterexample:
  "servers shownEngine 1 = Some shownServer \<and>
   IsShown (CurrentSession shownServer) \<and>
   fails_with (Vote shownEngine 1 ''b1'' ''3'') Forbidden \<and>
   \<not> fails_with (Vote shownEngine 1 ''b1'' ''3'') Locked \<and>
   \<not> fails_with (Vote shownEngine 1 ''zz'' ''3'') Locked"
  by (simp add: shownEngine_eq shownServer_def demoServer_def Vote_def fails_with_def
      playerB_def)

section \<open>CreateRoom\<close>

lemma cleanCards_filter:
  "cleanCards cleanedCards cards =
     cleanedCards @ filter (\<lambda>t. t \<noteq> []) (map TrimSpace cards)"
  by (induction cards arbitrary: cleanedCards) (simp_all add: Let_def)

lemma cleanCards_cardTokens: "cleanCards [] (Split spec) = cardTokens spec"
  by (simp add: cleanCards_filter cardTokens_def)

lemma split_from_nonempty: "split_from cur s \<noteq> []"
  by (induction s arbitrary: cur) simp_all

lemma split_from_Join: "Join (split_from cur s) = cur @ s"
proof (induction s arbitrary: cur)
  case Nil
  show ?case by simp
next
  case (Cons c s)
  have "split_from [] s \<noteq> []"
    by (simp add: split_from_nonempty)
  then obtain t ts where "split_from [] s = t # ts"
    by (cases "split_from [] s") simp_all
  with Cons [of "[]"] Cons [of "cur @ [c]"] show ?case
    by simp
qed

lemma split_from_no_comma:
  "CHR '','' \<notin> set cur \<Longrightarrow> \<forall>t \<in> set (split_from cur s). CHR '','' \<notin> set t"
proof (induction s arbitrary: cur)
  case Nil
  then show ?case by simp
next
  case (Cons c s)
  show ?case
  proof (cases "c = CHR '',''")
    case True
    with Cons.prems Cons.IH [of "[]"] show ?thesis by simp
  next
    case False
    with Cons.prems Cons.IH [of "cur @ [c]"] show ?thesis by simp
  qed
qed

lemma spaceRunes_nonempty: "w \<in> set spaceRunes \<Longrightarrow> w \<noteq> []"
  by (auto simp: spaceRunes_def)

lemma leadingSpace_rune:
  assumes "leadingSpace s \<noteq> 0"
  shows "take (leadingSpace s) s \<in> set spaceRunes"
proof -
  from assms obtain w where w: "find (\<lambda>w. prefix w s) spaceRunes = Some w"
    by (auto simp: leadingSpace_def split: option.splits)
  then have "w \<in> set spaceRunes" and "prefix w s"
    by (auto simp: find_Some_iff)
  moreover from w have "leadingSpace s = length w"
    by (simp add: leadingSpace_def)
  ultimately show ?thesis
    by (auto simp: prefix_def)
qed

lemma trailingSpace_rune:
  assumes "trailingSpace s \<noteq> 0"
  shows "drop (length s - trailingSpace s) s \<in> set spaceRunes"
proof -
  from assms obtain w where w: "find (\<lambda>w. suffix w s) spaceRunes = Some w"
    by (auto simp: trailingSpace_def split: option.splits)
  then have "w \<in> set spaceRunes" and "suffix w s"
    by (auto simp: find_Some_iff)
  moreover from w have "trailingSpace s = length w"
    by (simp add: trailingSpace_def)
  ultimately show ?thesis
    by (auto simp: suffix_def)
qed

lemma leadingSpace_0: "leadingSpace s = 0 \<longleftrightarrow> (\<forall>w \<in> set spaceRunes. \<not> prefix w s)"
proof (cases "find (\<lambda>w. prefix w s) spaceRunes")
  case None
  then have "leadingSpace s = 0"
    by (simp add: leadingSpace_def)
  moreover from None have "\<forall>w \<in> set spaceRunes. \<not> prefix w s"
    by (simp add: find_None_iff)
  ultimately show ?thesis
    by simp
next
  case (Some w)
  then have "w \<in> set spaceRunes" and "prefix w s"
    by (auto simp: find_Some_iff)
  moreover from Some have "leadingSpace s = length w"
    by (simp add: leadingSpace_def)
  ultimately show ?thesis
    using spaceRunes_nonempty [of w] by auto
qed

lemma trailingSpace_0: "trailingSpace s = 0 \<longleftrightarrow> (\<forall>w \<in> set spaceRunes. \<not> suffix w s)"
proof (cases "find (\<lambda>w. suffix w s) spaceRunes")
  case None
  then have "trailingSpace s = 0"
    by (simp add: trailingSpace_def)
  moreover from None have "\<forall>w \<in> set spaceRunes. \<not> suffix w s"
    by (simp add: find_None_iff)
  ultimately show ?thesis
    by simp
next
  case (Some w)
  then have "w \<in> set spaceRunes" and "suffix w s"
    by (auto simp: find_Some_iff)
  moreover from Some have "trailingSpace s = length w"
    by (simp add: trailingSpace_def)
  ultimately show ?thesis
    using spaceRunes_nonempty [of w] by auto
qed

lemma spaces_append: "spaces s \<Longrightarrow> spaces t \<Longrightarrow> spaces (s @ t)"
proof (induction rule: spaces.induct)
  case spaces_Nil
  then show ?case by simp
next
  case (spaces_rune w s)
  from spaces_rune.hyps(1) spaces_rune.IH [OF spaces_rune.prems]
  have "spaces (w @ (s @ t))"
    by (rule spaces.spaces_rune)
  then show ?case by simp
qed

lemma spaces_single: "w \<in> set spaceRunes \<Longrightarrow> spaces w"
  using spaces_rune [of w "[]"] by (simp add: spaces_Nil)

lemma TrimLeft_spec:
  "\<exists>pre. spaces pre \<and> s = pre @ TrimLeft s \<and> leadingSpace (TrimLeft s) = 0"
proof (induction s rule: TrimLeft.induct)
  case (1 s)
  show ?case
  proof (cases "leadingSpace s = 0")
    case True
    then have "TrimLeft s = s"
      by (simp add: TrimLeft.simps)
    with True spaces_Nil show ?thesis
      by auto
  next
    case False
    with 1 obtain pre where pre: "spaces pre"
        "drop (leadingSpace s) s = pre @ TrimLeft (drop (leadingSpace s) s)"
        "leadingSpace (TrimLeft (drop (leadingSpace s) s)) = 0"
      by auto
    from False have eq: "TrimLeft s = TrimLeft (drop (leadingSpace s) s)"
      by (subst TrimLeft.simps) simp
    from False have "spaces (take (leadingSpace s) s)"
      by (simp add: leadingSpace_rune spaces_single)
    then have "spaces (take (leadingSpace s) s @ pre)"
      using pre(1) by (rule spaces_append)
    moreover have "s = (take (leadingSpace s) s @ pre) @ TrimLeft s"
      using pre(2) eq by (metis append_assoc append_take_drop_id)
    moreover have "leadingSpace (TrimLeft s) = 0"
      using pre(3) eq by simp
    ultimately show ?thesis
      by blast
  qed
qed

lemma TrimRight_spec:
  "\<exists>post. spaces post \<and> s = TrimRight s @ post \<and> trailingSpace (TrimRight s) = 0"
proof (induction s rule: TrimRight.induct)
  case (1 s)
  show ?case
  proof (cases "trailingSpace s = 0")
    case True
    then have "TrimRight s = s"
      by (simp add: TrimRight.simps)
    with True spaces_Nil show ?thesis
      by auto
  next
    case False
    let ?n = "length s - trailingSpace s"
    from False 1 obtain post where post: "spaces post"
        "take ?n s = TrimRight (take ?n s) @ post"
        "trailingSpace (TrimRight (take ?n s)) = 0"
      by auto
    from False have eq: "TrimRight s = TrimRight (take ?n s)"
      by (subst TrimRight.simps) simp
    from False have "spaces (drop ?n s)"
      by (simp add: trailingSpace_rune spaces_single)
    with post(1) have "spaces (post @ drop ?n s)"
      by (rule spaces_append)
    moreover have "s = TrimRight s @ (post @ drop ?n s)"
      using post(2) eq by (metis append_assoc append_take_drop_id)
    moreover have "trailingSpace (TrimRight s) = 0"
      using post(3) eq by simp
    ultimately show ?thesis
      by blast
  qed
qed

lemma TrimSpace_spec:
  "\<exists>pre post. spaces pre \<and> spaces post \<and> s = pre @ TrimSpace s @ post \<and>
     leadingSpace (TrimSpace s) = 0 \<and> trailingSpace (TrimSpace s) = 0"
proof -
  obtain pre where pre: "spaces pre" "s = pre @ TrimLeft s" "leadingSpace (TrimLeft s) = 0"
    using TrimLeft_spec by blast
  obtain post where post: "spaces post" "TrimLeft s = TrimRight (TrimLeft s) @ post"
      "trailingSpace (TrimRight (TrimLeft s)) = 0"
    using TrimRight_spec by blast
  have "leadingSpace (TrimRight (TrimLeft s)) = 0"
  proof -
    have "\<not> prefix w (TrimRight (TrimLeft s))" if "w \<in> set spaceRunes" for w
    proof
      assume "prefix w (TrimRight (TrimLeft s))"
      then have "prefix w (TrimRight (TrimLeft s) @ post)"
        by (rule prefix_prefix)
      with post(2) have "prefix w (TrimLeft s)"
        by simp
      with pre(3) that show False
        by (simp add: leadingSpace_0)
    qed
    then show ?thesis
      by (simp add: leadingSpace_0)
  qed
  moreover from pre(2) post(2) have "s = pre @ TrimSpace s @ post"
    by (simp add: TrimSpace_def)
  ultimately show ?thesis
    using pre(1) post(1) post(3) by (auto simp: TrimSpace_def)
qed

lemma cardTokens_demo: "cardTokens ''1,2,3,5,8'' = [''1'', ''2'', ''3'', ''5'', ''8'']"
  by code_simp

lemma cardTokens_untidy:
  "cardTokens [CHR '' '', CHR ''X'', CHR ''L'', CHR 0x09, CHR '','', CHR '','', CHR '' '',
      CHR '','', CHR 0xC2, CHR 0xA0, CHR ''?'', CHR '' '', CHR ''?'', CHR 0xE2, CHR 0x80, CHR 0x83,
      CHR '',''] =
     [''XL'', ''? ?'']"
  by code_simp

lemma cardTokens_blank: "cardTokens '' , ,'' = []"
  by code_simp

text \<open>
  C8. \<open>CreateRoom\<close> fails with InvalidInput exactly when the card set of the input is
  empty, and then leaves the engine as it was. Otherwise it returns the new id and stores
  under it a room with no players and a session that holds the card set, no votes, and is
  not shown; nothing else changes. The pieces of \<open>Split\<close> are those between the commas:
  joined with commas they give the input back, and none contains a comma. \<open>TrimSpace\<close>
  takes white space, and nothing else, from both ends of a piece until neither end is
  white space.
\<close>

theorem CreateRoom_spec:
  "(fails_with (CreateRoom e roomId now spec) InvalidInput \<longleftrightarrow> cardTokens spec = []) \<and>
   (cardTokens spec = [] \<longrightarrow> CreateRoom e roomId now spec = (Inl CardSetEmpty, e)) \<and>
   (cardTokens spec \<noteq> [] \<longrightarrow>
      CreateRoom e roomId now spec =
        (Inr roomId,
         e\<lparr>servers := (servers e)(roomId \<mapsto>
              \<lparr>ServerId = roomId,
               Players = [],
               CurrentSession =
                 \<lparr>CardSet = cardTokens spec, Votes = Map.empty, IsShown = False\<rparr>,
               LastAccess = now\<rparr>)\<rparr>)) \<and>
   Join (Split spec) = spec \<and>
   (\<forall>t \<in> set (Split spec). CHR '','' \<notin> set t) \<and>
   (\<forall>t. \<exists>pre post. spaces pre \<and> spaces post \<and> t = pre @ TrimSpace t @ post \<and>
      leadingSpace (TrimSpace t) = 0 \<and> trailingSpace (TrimSpace t) = 0)"
proof -
  have "Join (Split spec) = spec"
    by (simp add: Split_def split_from_Join)
  moreover have "\<forall>t \<in> set (Split spec). CHR '','' \<notin> set t"
    using split_from_no_comma [of "[]" spec] by (simp add: Split_def)
  moreover have "\<forall>t. \<exists>pre post. spaces pre \<and> spaces post \<and> t = pre @ TrimSpace t @ post \<and>
      leadingSpace (TrimSpace t) = 0 \<and> trailingSpace (TrimSpace t) = 0"
    using TrimSpace_spec by blast
  moreover have "fails_with (CreateRoom e roomId now spec) InvalidInput \<longleftrightarrow>
      cardTokens spec = []"
    by (simp add: CreateRoom_def Let_def cleanCards_cardTokens fails_with_def)
  moreover have "cardTokens spec = [] \<longrightarrow>
      CreateRoom e roomId now spec = (Inl CardSetEmpty, e)"
    by (simp add: CreateRoom_def Let_def cleanCards_cardTokens)
  moreover have "cardTokens spec \<noteq> [] \<longrightarrow>
      CreateRoom e roomId now spec =
        (Inr roomId,
         e\<lparr>servers := (servers e)(roomId \<mapsto>
              \<lparr>ServerId = roomId,
               Players = [],
               CurrentSession =
                 \<lparr>CardSet = cardTokens spec, Votes = Map.empty, IsShown = False\<rparr>,
               LastAccess = now\<rparr>)\<rparr>)"
    by (simp add: CreateRoom_def Let_def cleanCards_cardTokens)
  ultimately show ?thesis
    by blast
qed

theorem CreateRoom_spec_witness:
  "cardTokens ''1,2,3,5,8'' = [''1'', ''2'', ''3'', ''5'', ''8''] \<and>
   CreateRoom NewEngine 1 0 ''1,2,3,5,8'' =
     (Inr 1,
      NewEngine\<lparr>servers := (servers NewEngine)(1 \<mapsto>
         \<lparr>ServerId = 1,
          Players = [],
          CurrentSession =
            \<lparr>CardSet = [''1'', ''2'', ''3'', ''5'', ''8''], Votes = Map.empty, IsShown = False\<rparr>,
          LastAccess = 0\<rparr>)\<rparr>) \<and>
   cardTokens [CHR '' '', CHR ''X'', CHR ''L'', CHR 0x09, CHR '','', CHR '','', CHR '' '',
      CHR '','', CHR 0xC2, CHR 0xA0, CHR ''?'', CHR '' '', CHR ''?'', CHR 0xE2, CHR 0x80, CHR 0x83,
      CHR '',''] =
     [''XL'', ''? ?''] \<and>
   cardTokens '' , ,'' = [] \<and>
   fails_with (CreateRoom demoEngine 2 0 '' , ,'') InvalidInput \<and>
   CreateRoom demoEngine 2 0 '' , ,'' = (Inl CardSetEmpty, demoEngine) \<and>
   set (Split '' , ,'') = {'' '', []} \<and>
   Join (Split '' , ,'') = '' , ,''"
proof -
  note demo = cardTokens_demo
  note blank = cardTokens_blank
  have tokens: "set (Split '' , ,'') = {'' '', []}"
    by (auto simp: Split_def)
  from demo CreateRoom_spec [of NewEngine 1 0 "''1,2,3,5,8''"]
  have created: "CreateRoom NewEngine 1 0 ''1,2,3,5,8'' =
     (Inr 1,
      NewEngine\<lparr>servers := (servers NewEngine)(1 \<mapsto>
         \<lparr>ServerId = 1,
          Players = [],
          CurrentSession =
            \<lparr>CardSet = [''1'', ''2'', ''3'', ''5'', ''8''], Votes = Map.empty, IsShown = False\<rparr>,
          LastAccess = 0\<rparr>)\<rparr>)"
    by simp
  from blank CreateRoom_spec [of demoEngine 2 0 "'' , ,''"]
  have refused: "fails_with (CreateRoom demoEngine 2 0 '' , ,'') InvalidInput \<and>
      CreateRoom demoEngine 2 0 '' , ,'' = (Inl CardSetEmpty, demoEngine) \<and>
      Join (Split '' , ,'') = '' , ,''"
    by blast
  from demo cardTokens_untidy blank tokens created refused show ?thesis
    by blast
qed

section \<open>Public ids\<close>

lemma JoinRoom_new_publicId:
  assumes "servers e roomId = Some server"
    and "find (\<lambda>(k, p). RecoveryId p = recoveryId) (Players server) = None"
  shows "\<exists>player. fst (JoinRoom e roomId recoveryId playerName privateId pType) = Inr player \<and>
     PublicId player =
       (if publicIds e roomId = [] then 1 else Max (set (publicIds e roomId)) + 1) \<and>
     (\<forall>n \<in> set (publicIds e roomId). n < PublicId player) \<and>
     PublicId player \<in> set (publicIds (snd (JoinRoom e roomId recoveryId playerName privateId pType)) roomId)"
proof (cases "Players server = []")
  case True
  with assms show ?thesis
    by (simp add: JoinRoom_def publicIds_def Let_def)
next
  case False
  let ?ids = "map (\<lambda>(k, p). PublicId p) (Players server)"
  let ?player = "\<lparr>Id = privateId, PublicId = Max (set ?ids) + 1, RecoveryId = recoveryId,
      Name = playerName, Type = pType, Mode = Awake\<rparr>"
  from False have ne: "?ids \<noteq> []" by simp
  then have last: "last (sort ?ids) = Max (set ?ids)"
    by (rule last_sort_Max)
  from assms False last
  have res: "JoinRoom e roomId recoveryId playerName privateId pType =
     (Inr ?player,
      e\<lparr>servers := (servers e)(roomId \<mapsto>
         server\<lparr>Players := AList.update privateId ?player (Players server)\<rparr>)\<rparr>)"
    by (simp add: JoinRoom_def Let_def)
  have ids: "publicIds e roomId = ?ids"
    using assms(1) by (simp add: publicIds_def)
  have less: "\<forall>n \<in> set ?ids. n < Max (set ?ids) + 1"
  proof
    fix n assume "n \<in> set ?ids"
    then have "n \<le> Max (set ?ids)" by simp
    then show "n < Max (set ?ids) + 1" by simp
  qed
  have "map_of (AList.update privateId ?player (Players server)) privateId = Some ?player"
    by (simp add: update_conv')
  then have "(privateId, ?player) \<in> set (AList.update privateId ?player (Players server))"
    by (rule map_of_SomeD)
  then have "PublicId ?player \<in>
      (\<lambda>(k, p). PublicId p) ` set (AList.update privateId ?player (Players server))"
    by (rule rev_image_eqI) simp
  then have there: "PublicId ?player \<in>
      set (publicIds (snd (JoinRoom e roomId recoveryId playerName privateId pType)) roomId)"
    by (simp add: res publicIds_def)
  from res ids ne less there show ?thesis
    by simp
qed

lemma allocated_fresh:
  assumes "allocated e r a = Some n"
  shows "(\<forall>m \<in> set (publicIds e r). m < n) \<and> n \<in> set (publicIds (step e a) r)"
proof (cases a)
  case (AJoinRoom roomId recoveryId playerName privateId pType)
  with assms obtain server where server: "servers e roomId = Some server"
    by (auto split: option.splits)
  with assms AJoinRoom have r: "roomId = r"
    and new: "find (\<lambda>(k, p). RecoveryId p = recoveryId) (Players server) = None"
    by (auto split: if_splits)
  from JoinRoom_new_publicId [OF server new, of playerName privateId pType]
  obtain player where player:
    "fst (JoinRoom e roomId recoveryId playerName privateId pType) = Inr player"
    "\<forall>m \<in> set (publicIds e roomId). m < PublicId player"
    "PublicId player \<in>
       set (publicIds (snd (JoinRoom e roomId recoveryId playerName privateId pType)) roomId)"
    by blast
  from assms AJoinRoom server r new player(1) have "n = PublicId player"
    by simp
  with player(2,3) r AJoinRoom show ?thesis
    by simp
qed (use assms in simp_all)

lemma allocations_increasing:
  "quiet e r acts \<Longrightarrow>
   sorted_wrt (<) (allocations e r acts) \<and>
   (\<forall>n \<in> set (allocations e r acts). \<forall>m \<in> set (publicIds e r). m < n)"
proof (induction acts arbitrary: e)
  case Nil
  show ?case by simp
next
  case (Cons a acts)
  from Cons.prems have kept: "set (publicIds e r) \<subseteq> set (publicIds (step e a) r)"
    and rest: "quiet (step e a) r acts"
    by (auto simp: list_all_iff)
  from Cons.IH [OF rest]
  have sorted: "sorted_wrt (<) (allocations (step e a) r acts)"
    and above: "\<forall>n \<in> set (allocations (step e a) r acts).
                 \<forall>m \<in> set (publicIds (step e a) r). m < n"
    by simp_all
  from above kept
  have old: "\<forall>n \<in> set (allocations (step e a) r acts). \<forall>m \<in> set (publicIds e r). m < n"
    by blast
  show ?case
  proof (cases "allocated e r a")
    case None
    with sorted old show ?thesis by simp
  next
    case (Some n)
    then have "\<forall>m \<in> set (publicIds e r). m < n" and "n \<in> set (publicIds (step e a) r)"
      using allocated_fresh by blast+
    with above sorted old Some show ?thesis
      by auto
  qed
qed

lemma threeJoin_quiet: "quiet NewEngine 1 threeJoin"
  by code_simp

lemma threeJoin_allocations: "allocations NewEngine 1 threeJoin = [1, 2, 3]"
  by code_simp

lemma demo_publicIds: "publicIds demoEngine 1 = [1, 2]"
  by (simp add: demoEngine_eq publicIds_def demoServer_def playerA_def playerB_def)

text \<open>
  C1, as the code has it. \<open>JoinRoom\<close> gives a player whose recovery id is new to the room
  the public id 1 when the room has no players, and otherwise one more than the greatest
  public id held in the room at that moment; so the new id is greater than every id held
  in the room. Hence over every sequence of engine calls during which no public id leaves
  the room, the ids allocated in the room are strictly increasing and greater than those
  held at the start. The code keeps no counter: what was allocated to players who have left
  is not recorded.
\<close>

theorem publicId_allocation:
  "(\<forall>server. servers e roomId = Some server \<and>
       find (\<lambda>(k, p). RecoveryId p = recoveryId) (Players server) = None \<longrightarrow>
       (\<exists>player. fst (JoinRoom e roomId recoveryId playerName privateId pType) = Inr player \<and>
          PublicId player =
            (if publicIds e roomId = [] then 1 else Max (set (publicIds e roomId)) + 1) \<and>
          (\<forall>n \<in> set (publicIds e roomId). n < PublicId player))) \<and>
   (quiet e roomId acts \<longrightarrow>
      sorted_wrt (<) (allocations e roomId acts) \<and>
      (\<forall>n \<in> set (allocations e roomId acts). \<forall>m \<in> set (publicIds e roomId). m < n))"
proof -
  have "\<forall>server. servers e roomId = Some server \<and>
       find (\<lambda>(k, p). RecoveryId p = recoveryId) (Players server) = None \<longrightarrow>
       (\<exists>player. fst (JoinRoom e roomId recoveryId playerName privateId pType) = Inr player \<and>
          PublicId player =
            (if publicIds e roomId = [] then 1 else Max (set (publicIds e roomId)) + 1) \<and>
          (\<forall>n \<in> set (publicIds e roomId). n < PublicId player))"
    using JoinRoom_new_publicId [of e roomId _ recoveryId playerName privateId pType]
    by blast
  moreover have "quiet e roomId acts \<longrightarrow>
      sorted_wrt (<) (allocations e roomId acts) \<and>
      (\<forall>n \<in> set (allocations e roomId acts). \<forall>m \<in> set (publicIds e roomId). m < n)"
    using allocations_increasing [of e roomId acts] by blast
  ultimately show ?thesis
    by blast
qed

theorem publicId_allocation_witness:
  "servers demoEngine 1 = Some demoServer \<and>
   find (\<lambda>(k, p). RecoveryId p = 30) (Players demoServer) = None \<and>
   publicIds demoEngine 1 = [1, 2] \<and>
   allocated demoEngine 1 (AJoinRoom 1 30 ''C'' ''c1'' Participant) = Some 3 \<and>
   quiet NewEngine 1 threeJoin \<and>
   allocations NewEngine 1 threeJoin = [1, 2, 3] \<and>
   sorted_wrt (<) (allocations NewEngine 1 threeJoin)"
proof -
  have known: "servers demoEngine 1 = Some demoServer"
    by (simp add: demoEngine_eq)
  have new: "find (\<lambda>(k, p). RecoveryId p = 30) (Players demoServer) = None"
    by (simp add: demoServer_def playerA_def playerB_def)
  note ids = demo_publicIds
  from known new publicId_allocation [of demoEngine 1 30 "''C''" "''c1''" Participant]
  obtain player where "fst (JoinRoom demoEngine 1 30 ''C'' ''c1'' Participant) = Inr player"
    and "PublicId player =
      (if publicIds demoEngine 1 = [] then 1 else Max (set (publicIds demoEngine 1)) + 1)"
    by blast
  with ids known new
  have third: "allocated demoEngine 1 (AJoinRoom 1 30 ''C'' ''c1'' Participant) = Some 3"
    by simp
  from threeJoin_quiet publicId_allocation [of NewEngine 1 _ _ _ _ threeJoin]
  have rising: "sorted_wrt (<) (allocations NewEngine 1 threeJoin)"
    by blast
  from known new ids third threeJoin_quiet threeJoin_allocations rising show ?thesis
    by blast
qed

text \<open>
  C1 as it is written says that a public id is never given to a later player once it has
  been allocated. A joins and gets the id 1, A leaves, B joins and gets the id 1 again;
  and with A and B in the room, B with the id 2 is kicked, and C, who joins then, gets 2.
\<close>

theorem publicId_reused_counterexample:
  "allocations NewEngine 1 leaveAndJoin = [1, 1] \<and>
   \<not> sorted_wrt (<) (allocations NewEngine 1 leaveAndJoin) \<and>
   holders (run NewEngine (take 2 leaveAndJoin)) 1 = [(7, 1)] \<and>
   holders (run NewEngine leaveAndJoin) 1 = [(8, 1)] \<and>
   allocations NewEngine 1 kickAndJoin = [1, 2, 2] \<and>
   \<not> sorted_wrt (<) (allocations NewEngine 1 kickAndJoin) \<and>
   holders (run NewEngine (take 3 kickAndJoin)) 1 = [(7, 1), (8, 2)] \<and>
   holders (run NewEngine kickAndJoin) 1 = [(7, 1), (9, 2)]"
  by code_simp

section \<open>Observers and votes\<close>

lemma cards_1_2_3: "cleanCards [] (Split ''1,2,3'') = [''1'', ''2'', ''3'']"
  by code_simp

text \<open>
  C3 fails on the code. \<open>Vote\<close> refuses an Observer, and where a player changes type on an
  open connection, the handler of \<open>changeType\<close> in package \<open>server\<close> clears the vote of a
  player who becomes an Observer (its comment says so). The reconnect branch of \<open>JoinRoom\<close>
  assigns the type supplied and leaves the votes alone: a Participant who has voted and
  joins again as Observer is an Observer with a vote, which \<open>Vote\<close> would have refused.
\<close>

theorem reconnect_as_Observer_keeps_vote:
  "servers (run NewEngine turnObserver) 1 = Some turnedServer \<and>
   observer_has_vote turnedServer \<and>
   fst (Vote (run NewEngine turnObserver) 1 ''c2'' ''3'') = Inl ObserversCannotVote"
  by (simp add: turnObserver_def turnedServer_def observer_has_vote_def NewEngine_def
      CreateRoom_def JoinRoom_def Vote_def cards_1_2_3 Sprintf_d_1 Let_def
      Participant_def Observer_def)

section \<open>The players of a room\<close>

lemma players_inv_iff:
  "players_inv ps \<longleftrightarrow>
     distinct (map fst ps) \<and>
     (\<forall>k p. (k, p) \<in> set ps \<longrightarrow> Id p = k) \<and>
     (\<forall>k p k' p'. (k, p) \<in> set ps \<longrightarrow> (k', p') \<in> set ps \<longrightarrow>
        RecoveryId p = RecoveryId p' \<longrightarrow> k = k') \<and>
     (\<forall>k p k' p'. (k, p) \<in> set ps \<longrightarrow> (k', p') \<in> set ps \<longrightarrow>
        PublicId p = PublicId p' \<longrightarrow> k = k')"
proof (cases "distinct (map fst ps)")
  case False
  then show ?thesis
    by (simp add: players_inv_def)
next
  case True
  then have d: "distinct ps"
    by (simp add: distinct_map)
  have same: "p = p'" if "(k, p) \<in> set ps" and "(k, p') \<in> set ps" for k p p'
    using True that by (rule eq_key_imp_eq_value)
  have inj: "inj_on (\<lambda>(k, p). f p) (set ps) \<longleftrightarrow>
      (\<forall>k p k' p'. (k, p) \<in> set ps \<longrightarrow> (k', p') \<in> set ps \<longrightarrow> f p = f p' \<longrightarrow> k = k')"
    for f :: "Player \<Rightarrow> 'a"
  proof
    assume "inj_on (\<lambda>(k, p). f p) (set ps)"
    then show "\<forall>k p k' p'. (k, p) \<in> set ps \<longrightarrow> (k', p') \<in> set ps \<longrightarrow> f p = f p' \<longrightarrow> k = k'"
      by (auto simp: inj_on_def)
  next
    assume r: "\<forall>k p k' p'. (k, p) \<in> set ps \<longrightarrow> (k', p') \<in> set ps \<longrightarrow> f p = f p' \<longrightarrow> k = k'"
    show "inj_on (\<lambda>(k, p). f p) (set ps)"
    proof (rule inj_onI)
      fix x y
      assume x: "x \<in> set ps" and y: "y \<in> set ps"
        and eq: "(case x of (k, p) \<Rightarrow> f p) = (case y of (k, p) \<Rightarrow> f p)"
      obtain k p where xp: "x = (k, p)" by (cases x)
      obtain k' p' where yp: "y = (k', p')" by (cases y)
      from eq xp yp have "f p = f p'" by simp
      with r x y xp yp have "k = k'" by blast
      with x y xp yp same have "p = p'" by blast
      with \<open>k = k'\<close> xp yp show "x = y" by simp
    qed
  qed
  have ids: "list_all (\<lambda>(k, p). Id p = k) ps \<longleftrightarrow> (\<forall>k p. (k, p) \<in> set ps \<longrightarrow> Id p = k)"
    by (auto simp: list_all_iff)
  from True d show ?thesis
    by (simp add: players_inv_def distinct_map inj ids)
qed

lemma delete_mem: "(k', p') \<in> set (AList.delete k ps) \<longleftrightarrow> k' \<noteq> k \<and> (k', p') \<in> set ps"
  by (auto simp: AList.delete_eq)

lemma update_mem:
  assumes "distinct (map fst ps)"
  shows "(k', p') \<in> set (AList.update k v ps) \<longleftrightarrow>
     (k' = k \<and> p' = v) \<or> (k' \<noteq> k \<and> (k', p') \<in> set ps)"
proof -
  from assms have "distinct (map fst (AList.update k v ps))"
    by (rule distinct_update)
  then have "(k', p') \<in> set (AList.update k v ps) \<longleftrightarrow>
      map_of (AList.update k v ps) k' = Some p'"
    by simp
  also have "\<dots> \<longleftrightarrow> ((map_of ps)(k \<mapsto> v)) k' = Some p'"
    by (simp add: update_conv')
  also have "\<dots> \<longleftrightarrow> (k' = k \<and> p' = v) \<or> (k' \<noteq> k \<and> map_of ps k' = Some p')"
    by auto
  also have "\<dots> \<longleftrightarrow> (k' = k \<and> p' = v) \<or> (k' \<noteq> k \<and> (k', p') \<in> set ps)"
    using assms by simp
  finally show ?thesis .
qed

lemma players_inv_Nil: "players_inv []"
  by (simp add: players_inv_def)

lemma players_inv_delete:
  assumes "players_inv ps"
  shows "players_inv (AList.delete k ps)"
proof -
  from assms have "distinct (map fst (AList.delete k ps))"
    by (simp add: players_inv_iff distinct_delete)
  with assms show ?thesis
    unfolding players_inv_iff [of ps] players_inv_iff [of "AList.delete k ps"] delete_mem
    by blast
qed

lemma players_inv_store:
  assumes inv: "players_inv ps"
    and key: "Id q = k"
    and rid: "\<forall>k' p'. (k', p') \<in> set ps \<longrightarrow> k' \<noteq> k \<longrightarrow> RecoveryId p' \<noteq> RecoveryId q"
    and pid: "\<forall>k' p'. (k', p') \<in> set ps \<longrightarrow> k' \<noteq> k \<longrightarrow> PublicId p' \<noteq> PublicId q"
  shows "players_inv (AList.update k q ps)"
proof -
  from inv have d: "distinct (map fst ps)"
    by (simp add: players_inv_iff)
  then have d': "distinct (map fst (AList.update k q ps))"
    by (rule distinct_update)
  note mem = update_mem [OF d, of _ _ k q]
  from inv have ids: "\<forall>k p. (k, p) \<in> set ps \<longrightarrow> Id p = k"
    and rids: "\<forall>k p k' p'. (k, p) \<in> set ps \<longrightarrow> (k', p') \<in> set ps \<longrightarrow>
        RecoveryId p = RecoveryId p' \<longrightarrow> k = k'"
    and pids: "\<forall>k p k' p'. (k, p) \<in> set ps \<longrightarrow> (k', p') \<in> set ps \<longrightarrow>
        PublicId p = PublicId p' \<longrightarrow> k = k'"
    by (simp_all add: players_inv_iff)
  have 1: "\<forall>k' p'. (k', p') \<in> set (AList.update k q ps) \<longrightarrow> Id p' = k'"
    using ids key unfolding mem by blast
  have 2: "\<forall>k1 p1 k2 p2. (k1, p1) \<in> set (AList.update k q ps) \<longrightarrow>
      (k2, p2) \<in> set (AList.update k q ps) \<longrightarrow> RecoveryId p1 = RecoveryId p2 \<longrightarrow> k1 = k2"
    using rids rid unfolding mem by metis
  have 3: "\<forall>k1 p1 k2 p2. (k1, p1) \<in> set (AList.update k q ps) \<longrightarrow>
      (k2, p2) \<in> set (AList.update k q ps) \<longrightarrow> PublicId p1 = PublicId p2 \<longrightarrow> k1 = k2"
    using pids pid unfolding mem by metis
  from d' 1 2 3 show ?thesis
    unfolding players_inv_iff [of "AList.update k q ps"] by blast
qed

lemma players_inv_reconnect:
  assumes inv: "players_inv ps"
    and found: "find (\<lambda>(k, p). RecoveryId p = recoveryId) ps = Some (k, p)"
  shows "players_inv
     (AList.update privateId (p\<lparr>Id := privateId, Mode := m, Name := n, Type := t\<rparr>)
        (AList.delete (Id p) ps))"
proof -
  let ?p' = "p\<lparr>Id := privateId, Mode := m, Name := n, Type := t\<rparr>"
  from found have mem: "(k, p) \<in> set ps"
    using find_Some_in by fastforce
  from inv have rids: "\<forall>k p k' p'. (k, p) \<in> set ps \<longrightarrow> (k', p') \<in> set ps \<longrightarrow>
        RecoveryId p = RecoveryId p' \<longrightarrow> k = k'"
    and pids: "\<forall>k p k' p'. (k, p) \<in> set ps \<longrightarrow> (k', p') \<in> set ps \<longrightarrow>
        PublicId p = PublicId p' \<longrightarrow> k = k'"
    and ids: "\<forall>k p. (k, p) \<in> set ps \<longrightarrow> Id p = k"
    by (simp_all add: players_inv_iff)
  from ids mem have key: "Id p = k" by blast
  from inv have "players_inv (AList.delete k ps)"
    by (rule players_inv_delete)
  moreover have "Id ?p' = privateId" by simp
  moreover have "\<forall>k' p'. (k', p') \<in> set (AList.delete k ps) \<longrightarrow> k' \<noteq> privateId \<longrightarrow>
      RecoveryId p' \<noteq> RecoveryId ?p'"
    using rids mem by (auto simp: delete_mem)
  moreover have "\<forall>k' p'. (k', p') \<in> set (AList.delete k ps) \<longrightarrow> k' \<noteq> privateId \<longrightarrow>
      PublicId p' \<noteq> PublicId ?p'"
    using pids mem by (auto simp: delete_mem)
  ultimately have "players_inv (AList.update privateId ?p' (AList.delete k ps))"
    by (rule players_inv_store)
  with key show ?thesis by simp
qed

lemma players_inv_new:
  assumes inv: "players_inv ps"
    and new: "find (\<lambda>(k, p). RecoveryId p = recoveryId) ps = None"
    and above: "\<forall>n \<in> set (map (\<lambda>(k, p). PublicId p) ps). n < publicId"
  shows "players_inv
     (AList.update privateId
        \<lparr>Id = privateId, PublicId = publicId, RecoveryId = recoveryId,
         Name = n, Type = t, Mode = m\<rparr> ps)"
proof -
  let ?q = "\<lparr>Id = privateId, PublicId = publicId, RecoveryId = recoveryId,
         Name = n, Type = t, Mode = m\<rparr>"
  from new have "\<forall>k' p'. (k', p') \<in> set ps \<longrightarrow> RecoveryId p' \<noteq> recoveryId"
    by (auto simp: find_None_iff)
  then have rid: "\<forall>k' p'. (k', p') \<in> set ps \<longrightarrow> k' \<noteq> privateId \<longrightarrow>
      RecoveryId p' \<noteq> RecoveryId ?q"
    by simp
  have "\<forall>k' p'. (k', p') \<in> set ps \<longrightarrow> PublicId p' < publicId"
  proof (intro allI impI)
    fix k' p' assume "(k', p') \<in> set ps"
    then have "PublicId p' \<in> set (map (\<lambda>(k, p). PublicId p) ps)"
      by force
    with above show "PublicId p' < publicId" by blast
  qed
  then have pid: "\<forall>k' p'. (k', p') \<in> set ps \<longrightarrow> k' \<noteq> privateId \<longrightarrow>
      PublicId p' \<noteq> PublicId ?q"
    by auto
  have "Id ?q = privateId" by simp
  with inv show ?thesis
    using rid pid by (rule players_inv_store)
qed

lemma players_inv_reorder:
  assumes "players_inv ps" and "distinct qs" and "set qs = set ps"
  shows "players_inv qs"
proof -
  from assms(1) have "inj_on fst (set ps)"
    by (simp add: players_inv_iff distinct_map)
  with assms(2,3) have "distinct (map fst qs)"
    by (simp add: distinct_map)
  with assms(1,3) show ?thesis
    unfolding players_inv_iff [of ps] players_inv_iff [of qs] by simp
qed

lemma new_publicId_above:
  fixes ids :: "int list"
  shows "\<forall>n \<in> set ids. n < (if length ids > 0 then last (sort ids) + 1 else 1)"
proof (cases "ids = []")
  case True
  then show ?thesis by simp
next
  case False
  then have "last (sort ids) = Max (set ids)"
    by (rule last_sort_Max)
  moreover have "\<forall>n \<in> set ids. n \<le> Max (set ids)"
    by simp
  ultimately show ?thesis
    using False by auto
qed

lemma engine_inv_store:
  "engine_inv e \<Longrightarrow> players_inv (Players server) \<Longrightarrow>
   engine_inv (e\<lparr>servers := (servers e)(roomId \<mapsto> server)\<rparr>)"
  by (simp add: engine_inv_def)

lemma engine_inv_room:
  "engine_inv e \<Longrightarrow> servers e roomId = Some server \<Longrightarrow> players_inv (Players server)"
  by (auto simp: engine_inv_def)

lemma engine_inv_NewEngine: "engine_inv NewEngine"
  by (simp add: engine_inv_def NewEngine_def)

lemma engine_inv_CreateRoom:
  "engine_inv e \<Longrightarrow> engine_inv (snd (CreateRoom e roomId now desiredCardSet))"
  by (simp add: CreateRoom_def Let_def engine_inv_store players_inv_Nil)

lemma engine_inv_GetServer: "engine_inv e \<Longrightarrow> engine_inv (snd (GetServer e now roomId))"
  by (auto simp: GetServer_def Let_def engine_inv_store engine_inv_room split: option.splits)

lemma engine_inv_JoinRoom:
  assumes "engine_inv e"
  shows "engine_inv (snd (JoinRoom e roomId recoveryId playerName privateId pType))"
proof (cases "servers e roomId")
  case None
  with assms show ?thesis
    by (simp add: JoinRoom_def)
next
  case (Some server)
  with assms have inv: "players_inv (Players server)"
    by (rule engine_inv_room)
  show ?thesis
  proof (cases "find (\<lambda>(k, p). RecoveryId p = recoveryId) (Players server)")
    case None
    let ?n = "if length (Players server) > 0
      then last (sort (map (\<lambda>(k, p). PublicId p) (Players server))) + 1 else 1"
    have "\<forall>n \<in> set (map (\<lambda>(k, p). PublicId p) (Players server)). n < ?n"
      using new_publicId_above [of "map (\<lambda>(k, p). PublicId p) (Players server)"] by simp
    with inv None have "players_inv
       (AList.update privateId
          \<lparr>Id = privateId, PublicId = ?n, RecoveryId = recoveryId,
           Name = playerName, Type = pType, Mode = Awake\<rparr> (Players server))"
      by (rule players_inv_new)
    with assms Some None show ?thesis
      by (simp add: JoinRoom_def Let_def engine_inv_store)
  next
    case found: (Some kp)
    obtain k p where kp: "kp = (k, p)" by (cases kp)
    from inv found kp have "players_inv
       (AList.update privateId
          (p\<lparr>Id := privateId, Mode := Awake, Name := playerName, Type := pType\<rparr>)
          (AList.delete (Id p) (Players server)))"
      by (simp add: players_inv_reconnect)
    with assms Some found kp show ?thesis
      by (simp add: JoinRoom_def Let_def engine_inv_store)
  qed
qed

lemma engine_inv_Vote: "engine_inv e \<Longrightarrow> engine_inv (snd (Vote e serverId privateId vote))"
  by (auto simp: Vote_def Let_def engine_inv_store engine_inv_room split: option.splits)

lemma engine_inv_UnVote: "engine_inv e \<Longrightarrow> engine_inv (snd (UnVote e serverId privateId))"
  by (auto simp: UnVote_def Let_def engine_inv_store engine_inv_room split: option.splits)

lemma engine_inv_ClearVotes: "engine_inv e \<Longrightarrow> engine_inv (snd (ClearVotes e serverId))"
  by (auto simp: ClearVotes_def Let_def engine_inv_store engine_inv_room split: option.splits)

lemma engine_inv_ShowVotes: "engine_inv e \<Longrightarrow> engine_inv (snd (ShowVotes e serverId))"
  by (auto simp: ShowVotes_def Let_def engine_inv_store engine_inv_room split: option.splits)

lemma engine_inv_KickPlayer:
  "engine_inv e \<Longrightarrow> engine_inv (snd (KickPlayer e serverId kickedPublicId))"
  by (auto simp: KickPlayer_def Let_def engine_inv_store engine_inv_room players_inv_delete
      split: option.splits)

lemma engine_inv_LeaveRoom:
  "engine_inv e \<Longrightarrow> engine_inv (snd (LeaveRoom e serverId privateId))"
  by (auto simp: LeaveRoom_def Let_def engine_inv_store engine_inv_room players_inv_delete
      split: option.splits)

lemma engine_inv_CleanupOldRooms: "engine_inv e \<Longrightarrow> engine_inv (CleanupOldRooms e now maxAge)"
  by (auto simp: CleanupOldRooms_def engine_inv_def split: option.splits if_splits)

lemma engine_inv_reorder:
  assumes "engine_inv e"
  shows "engine_inv (reorder e roomId ps)"
proof (cases "servers e roomId")
  case None
  with assms show ?thesis
    by (simp add: reorder_def)
next
  case (Some server)
  show ?thesis
  proof (cases "distinct ps \<and> distinct (Players server) \<and> set ps = set (Players server)")
    case True
    from assms Some have "players_inv (Players server)"
      by (rule engine_inv_room)
    with True have "players_inv ps"
      by (simp add: players_inv_reorder)
    with assms Some True show ?thesis
      by (simp add: reorder_def engine_inv_store)
  next
    case False
    with assms Some show ?thesis
      by (auto simp: reorder_def)
  qed
qed

lemma engine_inv_step: "engine_inv e \<Longrightarrow> engine_inv (step e a)"
  by (cases a)
    (simp_all add: engine_inv_CreateRoom engine_inv_GetServer engine_inv_JoinRoom
      engine_inv_Vote engine_inv_UnVote engine_inv_ClearVotes engine_inv_ShowVotes
      engine_inv_KickPlayer engine_inv_LeaveRoom engine_inv_CleanupOldRooms
      engine_inv_reorder)

lemma engine_inv_run: "engine_inv e \<Longrightarrow> engine_inv (run e acts)"
  by (induction acts arbitrary: e) (simp_all add: engine_inv_step)

section \<open>Reconnecting\<close>

lemma find_unique:
  assumes inv: "players_inv ps"
    and mem: "(k, p) \<in> set ps"
  shows "find (\<lambda>(k, q). RecoveryId q = RecoveryId p) ps = Some (k, p)"
proof (cases "find (\<lambda>(k, q). RecoveryId q = RecoveryId p) ps")
  case None
  with mem show ?thesis
    by (auto simp: find_None_iff)
next
  case (Some x)
  obtain k' p' where x: "x = (k', p')" by (cases x)
  from Some x have mem': "(k', p') \<in> set ps" and rid: "RecoveryId p' = RecoveryId p"
    using find_Some_in by fastforce+
  from inv mem mem' rid have "k' = k"
    unfolding players_inv_iff by metis
  moreover from inv have "distinct (map fst ps)"
    by (simp add: players_inv_iff)
  ultimately have "p' = p"
    using mem mem' eq_key_imp_eq_value by metis
  with Some x \<open>k' = k\<close> show ?thesis by simp
qed

lemma filter_unique:
  "distinct (map f xs) \<Longrightarrow> x \<in> set xs \<Longrightarrow> filter (\<lambda>y. f y = f x) xs = [x]"
proof (induction xs)
  case Nil
  then show ?case by simp
next
  case (Cons a xs)
  show ?case
  proof (cases "a = x")
    case True
    from Cons.prems(1) have "f a \<notin> f ` set xs"
      by simp
    then have "\<forall>y \<in> set xs. f y \<noteq> f a"
      by (metis imageI)
    with True have "filter (\<lambda>y. f y = f x) xs = []"
      by (simp add: filter_empty_conv)
    with True show ?thesis by simp
  next
    case False
    with Cons.prems have mem: "x \<in> set xs" by simp
    from Cons.prems(1) have "f a \<notin> f ` set xs"
      by simp
    with mem have "f a \<noteq> f x"
      by (metis imageI)
    moreover from Cons.IH Cons.prems(1) mem have "filter (\<lambda>y. f y = f x) xs = [x]"
      by simp
    ultimately show ?thesis by simp
  qed
qed

text \<open>
  C2. Take a state that the engine reaches from \<open>NewEngine\<close> by any sequence of calls, a
  room of it, and a player \<open>p\<close> of the room, stored under \<open>k\<close>, whose recovery id is the one
  supplied. Then \<open>JoinRoom\<close> succeeds and returns \<open>p\<close> with the private id, name and type
  supplied and the mode Awake, and with the public id and recovery id it had. In the
  room the entry under \<open>k\<close> is removed and the updated record is stored under the new
  private id; the session of the room, and so every vote, is as it was, and so are the
  other rooms. Afterwards the updated record is the only player of the room with that
  recovery id.
\<close>

theorem JoinRoom_reconnect:
  assumes room: "servers (run NewEngine acts) roomId = Some server"
    and mem: "(k, p) \<in> set (Players server)"
    and rid: "RecoveryId p = recoveryId"
  shows "JoinRoom (run NewEngine acts) roomId recoveryId playerName privateId pType =
       (Inr (p\<lparr>Id := privateId, Mode := Awake, Name := playerName, Type := pType\<rparr>),
        (run NewEngine acts)\<lparr>servers := (servers (run NewEngine acts))(roomId \<mapsto>
           server\<lparr>Players :=
             AList.update privateId
               (p\<lparr>Id := privateId, Mode := Awake, Name := playerName, Type := pType\<rparr>)
               (AList.delete k (Players server))\<rparr>)\<rparr>) \<and>
     map_of (AList.update privateId
               (p\<lparr>Id := privateId, Mode := Awake, Name := playerName, Type := pType\<rparr>)
               (AList.delete k (Players server))) =
       ((map_of (Players server))(k := None))(privateId \<mapsto>
          p\<lparr>Id := privateId, Mode := Awake, Name := playerName, Type := pType\<rparr>) \<and>
     map_of (Players server) k = Some p \<and>
     filter (\<lambda>(k', q). RecoveryId q = recoveryId)
       (AList.update privateId
          (p\<lparr>Id := privateId, Mode := Awake, Name := playerName, Type := pType\<rparr>)
          (AList.delete k (Players server))) =
       [(privateId, p\<lparr>Id := privateId, Mode := Awake, Name := playerName, Type := pType\<rparr>)] \<and>
     PublicId (p\<lparr>Id := privateId, Mode := Awake, Name := playerName, Type := pType\<rparr>) =
       PublicId p \<and>
     RecoveryId (p\<lparr>Id := privateId, Mode := Awake, Name := playerName, Type := pType\<rparr>) =
       RecoveryId p \<and>
     map_option CurrentSession
       (servers (snd (JoinRoom (run NewEngine acts) roomId recoveryId playerName privateId pType))
          roomId) =
       Some (CurrentSession server)"
proof -
  let ?e = "run NewEngine acts"
  let ?p' = "p\<lparr>Id := privateId, Mode := Awake, Name := playerName, Type := pType\<rparr>"
  let ?players = "AList.update privateId ?p' (AList.delete k (Players server))"
  have "engine_inv ?e"
    using engine_inv_NewEngine by (rule engine_inv_run)
  then have inv: "players_inv (Players server)"
    using room by (rule engine_inv_room)
  from inv mem rid
  have found: "find (\<lambda>(k, q). RecoveryId q = recoveryId) (Players server) = Some (k, p)"
    using find_unique by blast
  from inv mem have key: "Id p = k"
    unfolding players_inv_iff by blast
  from inv have d: "distinct (map fst (Players server))"
    by (simp add: players_inv_iff)
  from room found key
  have res: "JoinRoom ?e roomId recoveryId playerName privateId pType =
       (Inr ?p', ?e\<lparr>servers := (servers ?e)(roomId \<mapsto> server\<lparr>Players := ?players\<rparr>)\<rparr>)"
    by (simp add: JoinRoom_def Let_def)
  have maps: "map_of ?players = ((map_of (Players server))(k := None))(privateId \<mapsto> ?p')"
    by (simp add: update_conv' delete_conv')
  from d mem have old: "map_of (Players server) k = Some p"
    by simp
  from players_inv_reconnect [OF inv found] key have inv': "players_inv ?players"
    by simp
  then have "distinct (map (\<lambda>y. RecoveryId (snd y)) ?players)"
    by (simp add: players_inv_def case_prod_unfold)
  moreover have "(privateId, ?p') \<in> set ?players"
  proof -
    have "map_of ?players privateId = Some ?p'"
      by (simp add: update_conv')
    then show ?thesis by (rule map_of_SomeD)
  qed
  ultimately have "filter (\<lambda>y. RecoveryId (snd y) = RecoveryId (snd (privateId, ?p')))
      ?players = [(privateId, ?p')]"
    by (rule filter_unique)
  with rid have one: "filter (\<lambda>(k', q). RecoveryId q = recoveryId) ?players =
      [(privateId, ?p')]"
    by (simp add: case_prod_unfold)
  have session: "map_option CurrentSession
       (servers (snd (JoinRoom ?e roomId recoveryId playerName privateId pType)) roomId) =
       Some (CurrentSession server)"
    by (simp add: res)
  from res maps old one session show ?thesis
    by simp
qed

theorem JoinRoom_reconnect_witness:
  "servers (run NewEngine demo) 1 = Some demoServer \<and>
   (''a1'', playerA) \<in> set (Players demoServer) \<and>
   RecoveryId playerA = 10 \<and>
   JoinRoom (run NewEngine demo) 1 10 ''Ann'' ''a2'' Participant =
     (Inr (playerA\<lparr>Id := ''a2'', Mode := Awake, Name := ''Ann'', Type := Participant\<rparr>),
      (run NewEngine demo)\<lparr>servers := (servers (run NewEngine demo))(1 \<mapsto>
         demoServer\<lparr>Players :=
           AList.update ''a2''
             (playerA\<lparr>Id := ''a2'', Mode := Awake, Name := ''Ann'', Type := Participant\<rparr>)
             (AList.delete ''a1'' (Players demoServer))\<rparr>)\<rparr>) \<and>
   AList.update ''a2''
     (playerA\<lparr>Id := ''a2'', Mode := Awake, Name := ''Ann'', Type := Participant\<rparr>)
     (AList.delete ''a1'' (Players demoServer)) =
     [(''b1'', playerB),
      (''a2'', \<lparr>Id = ''a2'', PublicId = 1, RecoveryId = 10, Name = ''Ann'',
                 Type = Participant, Mode = Awake\<rparr>)] \<and>
   map_option CurrentSession
     (servers (snd (JoinRoom (run NewEngine demo) 1 10 ''Ann'' ''a2'' Participant)) 1) =
     Some (CurrentSession demoServer) \<and>
   Votes (CurrentSession demoServer) ''1'' = Some ''5''"
proof -
  have known: "servers (run NewEngine demo) 1 = Some demoServer"
    using demoEngine_eq by (simp add: demoEngine_def)
  have mem: "(''a1'', playerA) \<in> set (Players demoServer)"
    by (simp add: demoServer_def)
  have rid: "RecoveryId playerA = 10"
    by (simp add: playerA_def)
  have players: "AList.update ''a2''
     (playerA\<lparr>Id := ''a2'', Mode := Awake, Name := ''Ann'', Type := Participant\<rparr>)
     (AList.delete ''a1'' (Players demoServer)) =
     [(''b1'', playerB),
      (''a2'', \<lparr>Id = ''a2'', PublicId = 1, RecoveryId = 10, Name = ''Ann'',
                 Type = Participant, Mode = Awake\<rparr>)]"
    by (simp add: demoServer_def playerA_def)
  have vote: "Votes (CurrentSession demoServer) ''1'' = Some ''5''"
    by (simp add: demoServer_def)
  note again = JoinRoom_reconnect [OF known mem rid, of "''Ann''" "''a2''" Participant]
  from again
  have res: "JoinRoom (run NewEngine demo) 1 10 ''Ann'' ''a2'' Participant =
     (Inr (playerA\<lparr>Id := ''a2'', Mode := Awake, Name := ''Ann'', Type := Participant\<rparr>),
      (run NewEngine demo)\<lparr>servers := (servers (run NewEngine demo))(1 \<mapsto>
         demoServer\<lparr>Players :=
           AList.update ''a2''
             (playerA\<lparr>Id := ''a2'', Mode := Awake, Name := ''Ann'', Type := Participant\<rparr>)
             (AList.delete ''a1'' (Players demoServer))\<rparr>)\<rparr>)"
    by (rule conjunct1)
  from again
  have session: "map_option CurrentSession
     (servers (snd (JoinRoom (run NewEngine demo) 1 10 ''Ann'' ''a2'' Participant)) 1) =
     Some (CurrentSession demoServer)"
    by blast
  from known mem rid res players session vote show ?thesis
    by blast
qed

end
